theory Spec2Isabelle
  imports Main "HOL-Library.Word"
begin

section \<open>Strings of the host language\<close>

text \<open>
  A JavaScript string is a sequence of UTF-16 code units. The regular expressions of
  the form component carry no \<open>u\<close> flag, so they too work on single code units.
  \<open>js\<close> embeds an ASCII literal.
\<close>

type_synonym codeUnit = "16 word"
type_synonym jsstring = "codeUnit list"

definition js :: "string \<Rightarrow> jsstring" where
  "js s = map (\<lambda>c. of_nat (of_char c)) s"

definition hyphen :: codeUnit where
  "hyphen = 0x2D"

text \<open>
  The class \<open>\s\<close> of a regular expression, which is also what \<open>String.prototype.trim\<close>
  strips: the WhiteSpace and LineTerminator code points of ECMAScript (tab, LF, VT, FF, CR,
  space, NBSP, U+1680, U+2000 to U+200A, U+2028, U+2029, U+202F, U+205F, U+3000, U+FEFF).
\<close>

definition isSpace :: "codeUnit \<Rightarrow> bool" where
  "isSpace c \<longleftrightarrow>
     (0x09 \<le> c \<and> c \<le> 0x0D) \<or> c = 0x20 \<or> c = 0xA0 \<or> c = 0x1680 \<or>
     (0x2000 \<le> c \<and> c \<le> 0x200A) \<or> c = 0x2028 \<or> c = 0x2029 \<or> c = 0x202F \<or>
     c = 0x205F \<or> c = 0x3000 \<or> c = 0xFEFF"

text \<open>
  The lower-casing table of \<open>generateSlug\<close>: \<open>String.prototype.toLowerCase\<close>, code unit
  by code unit. The ASCII and Latin-1 letters are mapped as Unicode maps them, so on a
  string of code units up to U+00FF this is the host's function. Beyond U+00FF the table
  has the code points whose lower case has a code unit below U+0100 (U+0130 gives \<open>i\<close> and
  a combining dot, U+0178 gives U+00FF, U+1E9E gives U+00DF, the Kelvin sign gives \<open>k\<close>,
  the Angstrom sign gives U+00E5) and leaves every other code unit as it is. The remaining
  case pairs of Unicode map code units above U+00FF to code units above U+00FF, none of
  them white space, so \<open>generateSlug\<close>, which deletes all of them in its next step,
  computes the same slug under this table and under the full one. Where the lower-cased
  string itself is kept, as in \<open>handleAddTag\<close>, the host's function is a parameter.
\<close>

definition lowerUnit :: "codeUnit \<Rightarrow> jsstring" where
  "lowerUnit c =
     (if 0x41 \<le> c \<and> c \<le> 0x5A then [c + 0x20]
      else if 0xC0 \<le> c \<and> c \<le> 0xDE \<and> c \<noteq> 0xD7 then [c + 0x20]
      else if c = 0x130 then [0x69, 0x307]
      else if c = 0x178 then [0xFF]
      else if c = 0x1E9E then [0xDF]
      else if c = 0x212A then [0x6B]
      else if c = 0x212B then [0xE5]
      else [c])"

definition toLowerCase :: "jsstring \<Rightarrow> jsstring" where
  "toLowerCase s = concat (map lowerUnit s)"

definition trim :: "jsstring \<Rightarrow> jsstring" where
  "trim s = rev (dropWhile isSpace (rev (dropWhile isSpace s)))"

text \<open>
  \<open>s.replace(/X+/g, r)\<close> for a class \<open>X\<close> of code units: every maximal run of code units
  of the class is replaced by \<open>r\<close>.
\<close>

function replaceRuns :: "(codeUnit \<Rightarrow> bool) \<Rightarrow> jsstring \<Rightarrow> jsstring \<Rightarrow> jsstring" where
  "replaceRuns p r [] = []"
| "replaceRuns p r (c # cs) =
     (if p c then r @ replaceRuns p r (dropWhile p cs) else c # replaceRuns p r cs)"
  by pat_completeness auto
termination
  by (relation "measure (\<lambda>(p, r, s). length s)")
    (auto simp: length_dropWhile_le le_imp_less_Suc)

section \<open>The form component: slugs\<close>

text \<open>
  \<^verbatim>\<open>
  const generateSlug = (title: string) => {
    return title
      .toLowerCase()
      .replace(/[^a-z0-9\s-]/g, '')
      .trim()
      .replace(/\s+/g, '-')
      .replace(/-+/g, '-');
  };
  \<close>
  \<open>slugKeep\<close> is the class \<open>[a-z0-9\s-]\<close>, whose complement the first replacement deletes.
\<close>

definition slugKeep :: "codeUnit \<Rightarrow> bool" where
  "slugKeep c \<longleftrightarrow>
     (0x61 \<le> c \<and> c \<le> 0x7A) \<or> (0x30 \<le> c \<and> c \<le> 0x39) \<or> isSpace c \<or> c = hyphen"

definition generateSlug :: "jsstring \<Rightarrow> jsstring" where
  "generateSlug title =
     replaceRuns (\<lambda>c. c = hyphen) [hyphen]
       (replaceRuns isSpace [hyphen]
         (trim (filter slugKeep (toLowerCase title))))"

text \<open>The vocabulary of the slug properties.\<close>

definition isSlugChar :: "codeUnit \<Rightarrow> bool" where
  "isSlugChar c \<longleftrightarrow> (0x61 \<le> c \<and> c \<le> 0x7A) \<or> (0x30 \<le> c \<and> c \<le> 0x39) \<or> c = hyphen"

fun hasDoubleHyphen :: "jsstring \<Rightarrow> bool" where
  "hasDoubleHyphen (a # b # cs) = ((a = hyphen \<and> b = hyphen) \<or> hasDoubleHyphen (b # cs))"
| "hasDoubleHyphen _ = False"

definition startsWithHyphen :: "jsstring \<Rightarrow> bool" where
  "startsWithHyphen s = (case s of [] \<Rightarrow> False | c # _ \<Rightarrow> c = hyphen)"

definition endsWithHyphen :: "jsstring \<Rightarrow> bool" where
  "endsWithHyphen s = startsWithHyphen (rev s)"

text \<open>
  The code units of a title that reach the slug as themselves: what is left of the
  lower-cased title once the characters outside \<open>[a-z0-9\s-]\<close> and the white space are gone.
\<close>

definition keptVisible :: "jsstring \<Rightarrow> jsstring" where
  "keptVisible title = filter (\<lambda>c. \<not> isSpace c) (filter slugKeep (toLowerCase title))"

section \<open>The form component: data\<close>

text \<open>An entry of the image list, as \<open>handleAddImage\<close> builds it.\<close>

record BlogImage =
  url :: jsstring
  alt :: jsstring
  caption :: jsstring
  order :: nat

text \<open>
  Modelled from the spec: the interface \<open>Blog\<close> is declared in \<open>services/blogService\<close>,
  which is not among the sources. The fields are those of the spec's BlogPost, all of which
  the two components read; the form guards every one it copies (\<open>blog.title || ''\<close>,
  \<open>blog.isPublished ?? true\<close>) and the controller guards the identifier
  (\<open>!selectedBlog?._id\<close>), so a copied field may be absent and the identifier may be
  empty. The three fields the server computes are read by the detail view as they are.
\<close>

record Blog =
  blog_id :: jsstring
  blog_title :: "jsstring option"
  blog_excerpt :: "jsstring option"
  blog_content :: "jsstring option"
  blog_tags :: "jsstring list option"
  blog_featuredImage :: "jsstring option"
  blog_images :: "BlogImage list option"
  blog_isPublished :: "bool option"
  blog_isFeatured :: "bool option"
  blog_metaDescription :: "jsstring option"
  blog_slug :: "jsstring option"
  blog_viewCount :: nat
  blog_readingTime :: nat
  blog_publishedAt :: jsstring

text \<open>The draft, with the fields the form's \<open>useState\<close> gives it.\<close>

record CreateBlogData =
  title :: jsstring
  excerpt :: jsstring
  content :: jsstring
  tags :: "jsstring list"
  featuredImage :: jsstring
  images :: "BlogImage list"
  isPublished :: bool
  isFeatured :: bool
  metaDescription :: jsstring
  slug :: jsstring

text \<open>A browser \<open>File\<close>; the component reads its MIME type only.\<close>

record File =
  fileName :: jsstring
  mimeType :: jsstring

record ImageInput =
  inputUrl :: jsstring
  inputAlt :: jsstring
  inputCaption :: jsstring

text \<open>
  The names of the form's inputs. A change event carries the name of the input, and a
  checkbox carries \<open>checked\<close> where every other input carries \<open>value\<close>; the string
  fields of the draft belong to text inputs and the boolean ones to checkboxes.
\<close>

datatype textField = Title | Excerpt | Content | FeaturedImage | MetaDescription | Slug

datatype checkField = IsPublished | IsFeatured

datatype fieldName = Text textField | Check checkField

datatype changeEvent = TextChange textField jsstring | CheckboxChange checkField bool

text \<open>
  The error mapping is a JavaScript object: keys in insertion order, an assignment to a
  key that exists keeps its place.
\<close>

type_synonym errorMap = "(fieldName \<times> jsstring) list"

fun assign :: "fieldName \<Rightarrow> jsstring \<Rightarrow> errorMap \<Rightarrow> errorMap" where
  "assign k v [] = [(k, v)]"
| "assign k v ((k', v') # es) = (if k' = k then (k, v) # es else (k', v') # assign k v es)"

definition keys :: "errorMap \<Rightarrow> fieldName list" where
  "keys es = map fst es"

record FormState =
  formData :: CreateBlogData
  tagInput :: jsstring
  imageInput :: ImageInput
  errors :: errorMap
  featuredImageFile :: "File option"
  featuredImagePreview :: jsstring

record BlogFormProps =
  blog :: "Blog option"
  isLoading :: bool

definition emptyFormData :: CreateBlogData where
  "emptyFormData =
     \<lparr>title = [], excerpt = [], content = [], tags = [], featuredImage = [], images = [],
      isPublished = True, isFeatured = False, metaDescription = [], slug = []\<rparr>"

text \<open>The state the \<open>useState\<close> calls give a freshly mounted form.\<close>

definition initialFormState :: FormState where
  "initialFormState =
     \<lparr>formData = emptyFormData, tagInput = [],
      imageInput = \<lparr>inputUrl = [], inputAlt = [], inputCaption = []\<rparr>,
      errors = [], featuredImageFile = None, featuredImagePreview = []\<rparr>"

text \<open>\<open>x || d\<close> on an optional field, and \<open>x ?? d\<close>.\<close>

definition orElse :: "'a list option \<Rightarrow> 'a list" where
  "orElse x = (case x of None \<Rightarrow> [] | Some v \<Rightarrow> v)"

definition coalesce :: "bool option \<Rightarrow> bool \<Rightarrow> bool" where
  "coalesce x d = (case x of None \<Rightarrow> d | Some b \<Rightarrow> b)"

section \<open>The form component: the effect on the supplied entity\<close>

text \<open>
  \<^verbatim>\<open>
  useEffect(() => {
    if (blog) {
      const initialFormData: CreateBlogData = {
        title: blog.title || '', ..., tags: blog.tags || [],
        isPublished: blog.isPublished ?? true, isFeatured: blog.isFeatured ?? false, ... };
      setFormData(initialFormData);
      setFeaturedImagePreview(blog.featuredImage || '');
      setFeaturedImageFile(null);
    } else {
      setFormData({ title: '', ..., isPublished: true, isFeatured: false, ... });
      setFeaturedImagePreview('');
      setFeaturedImageFile(null);
    }
    setErrors({});
  }, [blog]);
  \<close>
\<close>

definition initialFormData :: "Blog \<Rightarrow> CreateBlogData" where
  "initialFormData b =
     \<lparr>title = orElse (blog_title b), excerpt = orElse (blog_excerpt b),
      content = orElse (blog_content b), tags = orElse (blog_tags b),
      featuredImage = orElse (blog_featuredImage b), images = orElse (blog_images b),
      isPublished = coalesce (blog_isPublished b) True,
      isFeatured = coalesce (blog_isFeatured b) False,
      metaDescription = orElse (blog_metaDescription b), slug = orElse (blog_slug b)\<rparr>"

definition blogEffect :: "Blog option \<Rightarrow> FormState \<Rightarrow> FormState" where
  "blogEffect b st =
     (case b of
        Some bl \<Rightarrow>
          st\<lparr>formData := initialFormData bl,
             featuredImagePreview := orElse (blog_featuredImage bl),
             featuredImageFile := None,
             errors := []\<rparr>
      | None \<Rightarrow>
          st\<lparr>formData := emptyFormData,
             featuredImagePreview := [],
             featuredImageFile := None,
             errors := []\<rparr>)"

text \<open>
  A render with a \<open>blog\<close> prop. The effect depends on \<open>[blog]\<close>, and React compares a
  dependency with \<open>Object.is\<close>: two objects are the same when they are one object, whatever
  their fields, and \<open>undefined\<close> is the same as \<open>undefined\<close>. So the prop of a render is the
  object's address together with its fields, and the effect runs when the addresses differ,
  or one render has an entity and the other none. The handlers read the fields only, so
  \<open>BlogFormProps\<close> carries no address.
\<close>

type_synonym blogRef = "nat \<times> Blog"

definition sameObject :: "blogRef option \<Rightarrow> blogRef option \<Rightarrow> bool" where
  "sameObject previous next =
     (case (previous, next) of
        (None, None) \<Rightarrow> True
      | (Some (a, _), Some (b, _)) \<Rightarrow> a = b
      | _ \<Rightarrow> False)"

definition rerender :: "blogRef option \<Rightarrow> blogRef option \<Rightarrow> FormState \<Rightarrow> FormState" where
  "rerender previous next st =
     (if sameObject previous next then st else blogEffect (map_option snd next) st)"

section \<open>The form component: field handlers\<close>

definition setText :: "textField \<Rightarrow> jsstring \<Rightarrow> CreateBlogData \<Rightarrow> CreateBlogData" where
  "setText n v d =
     (case n of
        Title \<Rightarrow> d\<lparr>title := v\<rparr>
      | Excerpt \<Rightarrow> d\<lparr>excerpt := v\<rparr>
      | Content \<Rightarrow> d\<lparr>content := v\<rparr>
      | FeaturedImage \<Rightarrow> d\<lparr>featuredImage := v\<rparr>
      | MetaDescription \<Rightarrow> d\<lparr>metaDescription := v\<rparr>
      | Slug \<Rightarrow> d\<lparr>slug := v\<rparr>)"

definition setCheck :: "checkField \<Rightarrow> bool \<Rightarrow> CreateBlogData \<Rightarrow> CreateBlogData" where
  "setCheck n v d =
     (case n of IsPublished \<Rightarrow> d\<lparr>isPublished := v\<rparr> | IsFeatured \<Rightarrow> d\<lparr>isFeatured := v\<rparr>)"

text \<open>\<open>if (errors[name]) setErrors(prev => ({ ...prev, [name]: '' }))\<close>\<close>

definition clearError :: "fieldName \<Rightarrow> errorMap \<Rightarrow> errorMap" where
  "clearError n es =
     (case map_of es n of
        Some m \<Rightarrow> if m \<noteq> [] then assign n [] es else es
      | None \<Rightarrow> es)"

text \<open>
  \<^verbatim>\<open>
  const handleInputChange = (e) => {
    const { name, value, type } = e.target;
    if (type === 'checkbox') {
      const checked = (e.target as HTMLInputElement).checked;
      setFormData(prev => ({ ...prev, [name]: checked }));
    } else {
      setFormData(prev => ({ ...prev, [name]: value }));
      if (name === 'title' && (!blog || !formData.slug?.trim())) {
        setFormData(prev => ({ ...prev, slug: generateSlug(value) }));
      }
    }
    if (errors[name]) setErrors(prev => ({ ...prev, [name]: '' }));
  };
  \<close>
  \<open>formData\<close> and \<open>errors\<close> in the conditions are the state of the current render, the
  state the handler is given; the updater functions are applied in the order queued.
\<close>

definition handleInputChange :: "BlogFormProps \<Rightarrow> changeEvent \<Rightarrow> FormState \<Rightarrow> FormState" where
  "handleInputChange props e st =
     (case e of
        CheckboxChange n checked \<Rightarrow>
          st\<lparr>formData := setCheck n checked (formData st),
             errors := clearError (Check n) (errors st)\<rparr>
      | TextChange n v \<Rightarrow>
          (let d1 = setText n v (formData st);
               d2 = (if n = Title \<and> (blog props = None \<or> trim (slug (formData st)) = [])
                     then d1\<lparr>slug := generateSlug v\<rparr> else d1)
           in st\<lparr>formData := d2, errors := clearError (Text n) (errors st)\<rparr>))"

text \<open>
  \<^verbatim>\<open>
  const handleAddTag = () => {
    if (tagInput.trim() && !formData.tags.includes(tagInput.trim().toLowerCase())) {
      setFormData(prev => ({ ...prev, tags: [...(prev.tags ?? []), tagInput.trim().toLowerCase()] }));
      setTagInput('');
    }
  };
  \<close>
\<close>

text \<open>
  The tag that is stored is the lower-cased input itself, so here the whole of Unicode's
  case table counts, with its rules for context. The table belongs to the host and changes
  with its Unicode version: \<open>String.prototype.toLowerCase\<close> is the parameter \<open>lower\<close>.
\<close>

definition handleAddTag :: "(jsstring \<Rightarrow> jsstring) \<Rightarrow> FormState \<Rightarrow> FormState" where
  "handleAddTag lower st =
     (if trim (tagInput st) \<noteq> [] \<and>
         lower (trim (tagInput st)) \<notin> set (tags (formData st))
      then st\<lparr>formData := (formData st)
                  \<lparr>tags := tags (formData st) @ [lower (trim (tagInput st))]\<rparr>,
              tagInput := []\<rparr>
      else st)"

text \<open>
  What is known of the host's function without its table: on a string of code units up to
  U+00FF, where no rule for context applies, it is the table of \<open>toLowerCase\<close> above.
\<close>

definition latin1 :: "jsstring \<Rightarrow> bool" where
  "latin1 s = list_all (\<lambda>c. c \<le> 0xFF) s"

definition lowersLatin1 :: "(jsstring \<Rightarrow> jsstring) \<Rightarrow> bool" where
  "lowersLatin1 lower \<longleftrightarrow> (\<forall>s. latin1 s \<longrightarrow> lower s = toLowerCase s)"

definition handleRemoveTag :: "jsstring \<Rightarrow> FormState \<Rightarrow> FormState" where
  "handleRemoveTag tagToRemove st =
     st\<lparr>formData := (formData st)
          \<lparr>tags := filter (\<lambda>tag. tag \<noteq> tagToRemove) (tags (formData st))\<rparr>\<rparr>"

text \<open>
  \<^verbatim>\<open>
  const handleAddImage = () => {
    if (imageInput.url.trim()) {
      setFormData(prev => ({ ...prev,
        images: [...(prev.images ?? []), { url: imageInput.url.trim(), alt: imageInput.alt.trim(),
          caption: imageInput.caption.trim(), order: (prev.images?.length ?? 0) }] }));
      setImageInput({ url: '', alt: '', caption: '' });
    }
  };
  const handleRemoveImage = (index: number) => {
    setFormData(prev => ({ ...prev, images: (prev.images ?? []).filter((_, i) => i !== index) }));
  };
  \<close>
\<close>

definition handleAddImage :: "FormState \<Rightarrow> FormState" where
  "handleAddImage st =
     (if trim (inputUrl (imageInput st)) \<noteq> []
      then st\<lparr>formData := (formData st)
                  \<lparr>images := images (formData st) @
                     [\<lparr>url = trim (inputUrl (imageInput st)),
                       alt = trim (inputAlt (imageInput st)),
                       caption = trim (inputCaption (imageInput st)),
                       order = length (images (formData st))\<rparr>]\<rparr>,
              imageInput := \<lparr>inputUrl = [], inputAlt = [], inputCaption = []\<rparr>\<rparr>
      else st)"

text \<open>\<open>xs.filter((_, i) => i !== index)\<close>: the filter sees every element with its position.\<close>

definition filterIndexNot :: "nat \<Rightarrow> 'a list \<Rightarrow> 'a list" where
  "filterIndexNot index xs =
     map fst (filter (\<lambda>(x, i). i \<noteq> index) (zip xs [0..<length xs]))"

definition handleRemoveImage :: "nat \<Rightarrow> FormState \<Rightarrow> FormState" where
  "handleRemoveImage index st =
     st\<lparr>formData := (formData st)\<lparr>images := filterIndexNot index (images (formData st))\<rparr>\<rparr>"

text \<open>
  \<^verbatim>\<open>
  const handleFeaturedImageChange = (e) => {
    const file = e.target.files?.[0];
    if (file) { setFeaturedImageFile(file); ... reader.readAsDataURL(file); }
  };
  \<close>
  The preview arrives later, when the reader has finished; the staged file is set at once.
\<close>

definition handleFeaturedImageChange :: "File option \<Rightarrow> FormState \<Rightarrow> FormState" where
  "handleFeaturedImageChange file st =
     (case file of None \<Rightarrow> st | Some f \<Rightarrow> st\<lparr>featuredImageFile := Some f\<rparr>)"

section \<open>The form component: validation and submission\<close>

text \<open>
  \<^verbatim>\<open>
  const validateForm = () => {
    const newErrors: Record<string, string> = {};
    if (!formData.title.trim()) newErrors.title = 'Title is required';
    if (!formData.excerpt.trim()) newErrors.excerpt = 'Excerpt is required';
    if (!formData.content.trim()) newErrors.content = 'Content is required';
    const hasNewFile = !!featuredImageFile;
    const hasImageUrl = !!formData.featuredImage?.trim();
    const hasExistingImage = !!(blog && blog.featuredImage);
    if (!hasNewFile && !hasImageUrl && !hasExistingImage) {
      newErrors.featuredImage = 'Featured image is required';
    }
    if (!formData.slug?.trim()) newErrors.slug = 'Slug is required';
    setErrors(newErrors);
    return Object.keys(newErrors).length === 0;
  };
  \<close>
\<close>

definition validateForm :: "BlogFormProps \<Rightarrow> FormState \<Rightarrow> FormState \<times> bool" where
  "validateForm props st =
     (let e1 = (if trim (title (formData st)) = []
                then assign (Text Title) (js ''Title is required'') [] else []);
          e2 = (if trim (excerpt (formData st)) = []
                then assign (Text Excerpt) (js ''Excerpt is required'') e1 else e1);
          e3 = (if trim (content (formData st)) = []
                then assign (Text Content) (js ''Content is required'') e2 else e2);
          hasNewFile = (featuredImageFile st \<noteq> None);
          hasImageUrl = (trim (featuredImage (formData st)) \<noteq> []);
          hasExistingImage =
            (case blog props of None \<Rightarrow> False | Some b \<Rightarrow> orElse (blog_featuredImage b) \<noteq> []);
          e4 = (if \<not> hasNewFile \<and> \<not> hasImageUrl \<and> \<not> hasExistingImage
                then assign (Text FeaturedImage) (js ''Featured image is required'') e3 else e3);
          newErrors = (if trim (slug (formData st)) = []
                then assign (Text Slug) (js ''Slug is required'') e4 else e4)
      in (st\<lparr>errors := newErrors\<rparr>, length (keys newErrors) = 0))"

text \<open>
  What a promise settles to. A rejection carries the thrown value, of which the handlers
  ask only whether it is an \<open>Error\<close> and, if so, its message.
\<close>

datatype rejection = ErrorObject jsstring | OtherValue

datatype settled = Fulfilled | Rejected rejection

text \<open>What the form does to the world: the dialogs, the console and the callback prop.\<close>

datatype effect =
    Alert jsstring
  | ConsoleError jsstring rejection
  | OnSave CreateBlogData "File option"

text \<open>
  \<^verbatim>\<open>
  const handleSubmit = async (e: React.FormEvent) => {
    e.preventDefault();
    if (isLoading) return;
    const isValid = validateForm();
    if (!isValid) {
      alert('Please fix the form errors before submitting');
      return;
    }
    try {
      const submitData = { ...formData, featuredImage: featuredImageFile ? '' : formData.featuredImage };
      await onSave(submitData, featuredImageFile ?? undefined);
    } catch (error) {
      console.error('Error saving blog:', error);
      alert('Error saving blog: ' + (error instanceof Error ? error.message : 'Unknown error'));
    }
  };
  \<close>
  The callback is a parameter: given the payload and the file it says how its promise
  settles. The result is the state after the handler, the effects in order, and how the
  promise of \<open>handleSubmit\<close> itself settles.
\<close>

definition handleSubmit ::
  "BlogFormProps \<Rightarrow> (CreateBlogData \<Rightarrow> File option \<Rightarrow> settled) \<Rightarrow> FormState \<Rightarrow>
     FormState \<times> effect list \<times> settled" where
  "handleSubmit props onSave st =
     (if isLoading props then (st, [], Fulfilled)
      else
        (let (st', isValid) = validateForm props st in
         if \<not> isValid
         then (st', [Alert (js ''Please fix the form errors before submitting'')], Fulfilled)
         else
           (let submitData = (formData st)
                  \<lparr>featuredImage :=
                     (case featuredImageFile st of Some f \<Rightarrow> [] | None \<Rightarrow> featuredImage (formData st))\<rparr>
            in case onSave submitData (featuredImageFile st) of
                 Fulfilled \<Rightarrow> (st', [OnSave submitData (featuredImageFile st)], Fulfilled)
               | Rejected error \<Rightarrow>
                   (st',
                    [OnSave submitData (featuredImageFile st),
                     ConsoleError (js ''Error saving blog:'') error,
                     Alert (js ''Error saving blog: '' @
                       (case error of ErrorObject message \<Rightarrow> message
                        | OtherValue \<Rightarrow> js ''Unknown error''))],
                    Fulfilled))))"

text \<open>The calls of the save callback among the effects, with their two arguments.\<close>

fun saveCalls :: "effect list \<Rightarrow> (CreateBlogData \<times> File option) list" where
  "saveCalls [] = []"
| "saveCalls (OnSave d f # es) = (d, f) # saveCalls es"
| "saveCalls (_ # es) = saveCalls es"

fun alerts :: "effect list \<Rightarrow> jsstring list" where
  "alerts [] = []"
| "alerts (Alert m # es) = m # alerts es"
| "alerts (_ # es) = alerts es"

section \<open>The list and detail controller\<close>

datatype ViewMode = ListView | FormView | DetailView

datatype FormMode = CreateMode | EditMode

record ListParams =
  page :: nat
  limit :: nat
  search :: "jsstring option"
  sortBy :: jsstring
  sortOrder :: jsstring
  includeUnpublished :: bool

record PageState =
  blogs :: "Blog list"
  loading :: bool
  formLoading :: bool
  error :: "jsstring option"
  viewMode :: ViewMode
  formMode :: FormMode
  selectedBlog :: "Blog option"
  searchTerm :: jsstring
  currentPage :: nat
  totalPages :: nat
  showDeleteConfirm :: "jsstring option"

definition initialPageState :: PageState where
  "initialPageState =
     \<lparr>blogs = [], loading = True, formLoading = False, error = None, viewMode = ListView,
      formMode = CreateMode, selectedBlog = None, searchTerm = [], currentPage = 1,
      totalPages = 1, showDeleteConfirm = None\<rparr>"

text \<open>
  The resource service is outside the component: a call of it is recorded, and how the
  call settles is given to the handler that awaits it.
\<close>

datatype serviceCall =
    GetBlogs ListParams
  | CreateBlog CreateBlogData "File option"
  | UpdateBlog jsstring CreateBlogData "File option"
  | DeleteBlog jsstring

datatype 'a response = Ok 'a | Failed rejection

text \<open>\<open>err instanceof Error ? err.message : fallback\<close>\<close>

definition messageOr :: "rejection \<Rightarrow> jsstring \<Rightarrow> jsstring" where
  "messageOr err fallback = (case err of ErrorObject m \<Rightarrow> m | OtherValue \<Rightarrow> fallback)"

text \<open>
  \<^verbatim>\<open>
  const loadBlogs = async () => {
    try {
      setLoading(true);
      setError(null);
      const response = await blogService.getBlogs({ page: currentPage, limit: 10,
        search: searchTerm || undefined, sortBy: 'publishedAt', sortOrder: 'desc',
        includeUnpublished: true });
      setBlogs(response.data.blogs);
      setTotalPages(response.data.pagination.totalPages);
    } catch (err) {
      setError(err instanceof Error ? err.message : 'Failed to load blogs');
    } finally {
      setLoading(false);
    }
  };
  \<close>
\<close>

definition loadBlogs ::
  "(Blog list \<times> nat) response \<Rightarrow> PageState \<Rightarrow> PageState \<times> serviceCall list" where
  "loadBlogs resp st =
     (let call = GetBlogs
            \<lparr>page = currentPage st, limit = 10,
             search = (if searchTerm st = [] then None else Some (searchTerm st)),
             sortBy = js ''publishedAt'', sortOrder = js ''desc'', includeUnpublished = True\<rparr>;
          st1 = st\<lparr>loading := True, error := None\<rparr>
      in case resp of
           Ok (bs, pages) \<Rightarrow> (st1\<lparr>blogs := bs, totalPages := pages, loading := False\<rparr>, [call])
         | Failed err \<Rightarrow>
             (st1\<lparr>error := Some (messageOr err (js ''Failed to load blogs'')), loading := False\<rparr>,
              [call]))"

text \<open>
  \<^verbatim>\<open>
  const handleCreateBlog = async (blogData, featuredImageFile?) => {
    try {
      setFormLoading(true);
      await blogService.createBlog(blogData as CreateBlogData, featuredImageFile);
      setViewMode('list');
      await loadBlogs();
    } catch (err) {
      setError(err instanceof Error ? err.message : 'Failed to create blog');
    } finally {
      setFormLoading(false);
    }
  };
  \<close>
  The third component of the result is how the promise of the handler settles, which is
  what the form awaits.
\<close>

definition handleCreateBlog ::
  "CreateBlogData \<Rightarrow> File option \<Rightarrow> unit response \<Rightarrow> (Blog list \<times> nat) response \<Rightarrow>
     PageState \<Rightarrow> PageState \<times> serviceCall list \<times> settled" where
  "handleCreateBlog blogData file created loaded st =
     (let st1 = st\<lparr>formLoading := True\<rparr> in
      case created of
        Ok _ \<Rightarrow>
          (let (st2, calls) = loadBlogs loaded (st1\<lparr>viewMode := ListView\<rparr>)
           in (st2\<lparr>formLoading := False\<rparr>, CreateBlog blogData file # calls, Fulfilled))
      | Failed err \<Rightarrow>
          (st1\<lparr>error := Some (messageOr err (js ''Failed to create blog'')), formLoading := False\<rparr>,
           [CreateBlog blogData file], Fulfilled))"

text \<open>
  \<^verbatim>\<open>
  const handleUpdateBlog = async (blogData, featuredImageFile?) => {
    try {
      setFormLoading(true);
      if (!selectedBlog?._id) {
        throw new Error('No blog selected for update');
      }
      await blogService.updateBlog(selectedBlog._id, blogData as UpdateBlogData, featuredImageFile);
      setViewMode('list');
      setSelectedBlog(null);
      await loadBlogs();
    } catch (err) {
      setError(err instanceof Error ? err.message : 'Failed to update blog');
    } finally {
      setFormLoading(false);
    }
  };
  \<close>
\<close>

definition handleUpdateBlog ::
  "CreateBlogData \<Rightarrow> File option \<Rightarrow> unit response \<Rightarrow> (Blog list \<times> nat) response \<Rightarrow>
     PageState \<Rightarrow> PageState \<times> serviceCall list \<times> settled" where
  "handleUpdateBlog blogData file updated loaded st =
     (let st1 = st\<lparr>formLoading := True\<rparr>;
          ident = (case selectedBlog st of None \<Rightarrow> [] | Some b \<Rightarrow> blog_id b)
      in if ident = []
         then (st1\<lparr>error := Some (js ''No blog selected for update''), formLoading := False\<rparr>,
               [], Fulfilled)
         else
           (case updated of
              Ok _ \<Rightarrow>
                (let (st2, calls) =
                       loadBlogs loaded (st1\<lparr>viewMode := ListView, selectedBlog := None\<rparr>)
                 in (st2\<lparr>formLoading := False\<rparr>, UpdateBlog ident blogData file # calls, Fulfilled))
            | Failed err \<Rightarrow>
                (st1\<lparr>error := Some (messageOr err (js ''Failed to update blog'')),
                     formLoading := False\<rparr>,
                 [UpdateBlog ident blogData file], Fulfilled)))"

text \<open>
  \<^verbatim>\<open>
  const handleDeleteBlog = async (id: string) => {
    try {
      await blogService.deleteBlog(id);
      setShowDeleteConfirm(null);
      await loadBlogs();
    } catch (err) {
      setError(err instanceof Error ? err.message : 'Failed to delete blog');
    }
  };
  \<close>
\<close>

definition handleDeleteBlog ::
  "jsstring \<Rightarrow> unit response \<Rightarrow> (Blog list \<times> nat) response \<Rightarrow> PageState \<Rightarrow>
     PageState \<times> serviceCall list" where
  "handleDeleteBlog ident deleted loaded st =
     (case deleted of
        Ok _ \<Rightarrow>
          (let (st1, calls) = loadBlogs loaded (st\<lparr>showDeleteConfirm := None\<rparr>)
           in (st1, DeleteBlog ident # calls))
      | Failed err \<Rightarrow>
          (st\<lparr>error := Some (messageOr err (js ''Failed to delete blog''))\<rparr>, [DeleteBlog ident]))"

definition handleEditBlog :: "Blog \<Rightarrow> PageState \<Rightarrow> PageState" where
  "handleEditBlog b st = st\<lparr>selectedBlog := Some b, formMode := EditMode, viewMode := FormView\<rparr>"

definition handleViewBlog :: "Blog \<Rightarrow> PageState \<Rightarrow> PageState" where
  "handleViewBlog b st = st\<lparr>selectedBlog := Some b, viewMode := DetailView\<rparr>"

definition handleNewBlog :: "PageState \<Rightarrow> PageState" where
  "handleNewBlog st = st\<lparr>selectedBlog := None, formMode := CreateMode, viewMode := FormView\<rparr>"

definition handleCancel :: "PageState \<Rightarrow> PageState" where
  "handleCancel st = st\<lparr>viewMode := ListView, selectedBlog := None, error := None\<rparr>"

text \<open>
  The detail view, rendered when \<open>viewMode === 'view' && selectedBlog\<close>, has the button
  \<open>onClick={() => setShowDeleteConfirm(selectedBlog._id)}\<close>.
\<close>

definition detailDeleteClicked :: "PageState \<Rightarrow> PageState" where
  "detailDeleteClicked st =
     (case selectedBlog st of
        Some b \<Rightarrow> if viewMode st = DetailView then st\<lparr>showDeleteConfirm := Some (blog_id b)\<rparr> else st
      | None \<Rightarrow> st)"

text \<open>
  Modelled from the spec: the markup of the list view (its table rows, pagination, search
  box and the confirmation dialog) is elided in the source, which keeps only the comment
  that the list, pagination and modal code is unchanged. The spec has "Delete: requires an
  explicit confirmation step (tracked as a held identifier) before the actual delete call
  fires", so the delete button of a row holds the row's identifier, as the detail view's
  button does.
\<close>

definition rowDeleteClicked :: "jsstring \<Rightarrow> PageState \<Rightarrow> PageState" where
  "rowDeleteClicked ident st = st\<lparr>showDeleteConfirm := Some ident\<rparr>"

text \<open>
  Modelled from the spec: the confirmation dialog is part of the elided markup, and with
  it the one call site of \<open>handleDeleteBlog\<close>. By the same sentence of the spec, and "on
  success, clears the confirmation and re-fetches", the dialog's confirm button calls
  \<open>handleDeleteBlog\<close> with the held identifier, and there is no dialog and no call when no
  identifier is held.
\<close>

definition confirmDeleteClicked ::
  "unit response \<Rightarrow> (Blog list \<times> nat) response \<Rightarrow> PageState \<Rightarrow> PageState \<times> serviceCall list" where
  "confirmDeleteClicked deleted loaded st =
     (case showDeleteConfirm st of
        Some ident \<Rightarrow> handleDeleteBlog ident deleted loaded st
      | None \<Rightarrow> (st, []))"

text \<open>
  Modelled from the spec: the dialog's cancel button, also elided, releases the held
  identifier.
\<close>

definition cancelDeleteClicked :: "PageState \<Rightarrow> PageState" where
  "cancelDeleteClicked st = st\<lparr>showDeleteConfirm := None\<rparr>"

text \<open>
  The public control flow of the controller: what a user can do to it. Each event carries
  how the service calls it causes settle; a handler is run to its end before the next
  event. \<open>Save\<close> is the form's save callback, which is \<open>handleCreateBlog\<close> or
  \<open>handleUpdateBlog\<close> by the form mode. \<open>Fetch\<close> is the effect on
  \<open>[currentPage, searchTerm]\<close> that calls \<open>loadBlogs\<close>, with the page and the search term
  the elided pagination and search box have set (for the first fetch, the initial ones).
  The handlers of the source are not restricted to the view that shows their button, which
  only adds executions.
\<close>

datatype event =
    NewClicked
  | EditClicked Blog
  | ViewClicked Blog
  | CancelClicked
  | DetailDeleteClicked
  | Save CreateBlogData "File option" "unit response" "(Blog list \<times> nat) response"
  | Fetch nat jsstring "(Blog list \<times> nat) response"
  | RowDeleteClicked jsstring
  | ConfirmDeleteClicked "unit response" "(Blog list \<times> nat) response"
  | CancelDeleteClicked

fun step :: "event \<Rightarrow> PageState \<Rightarrow> PageState \<times> serviceCall list" where
  "step NewClicked st = (handleNewBlog st, [])"
| "step (EditClicked b) st = (handleEditBlog b st, [])"
| "step (ViewClicked b) st = (handleViewBlog b st, [])"
| "step CancelClicked st = (handleCancel st, [])"
| "step DetailDeleteClicked st = (detailDeleteClicked st, [])"
| "step (Save d f saved loaded) st =
     (let (st', calls, _) =
            (if formMode st = CreateMode then handleCreateBlog d f saved loaded st
             else handleUpdateBlog d f saved loaded st)
      in (st', calls))"
| "step (Fetch p term loaded) st = loadBlogs loaded (st\<lparr>currentPage := p, searchTerm := term\<rparr>)"
| "step (RowDeleteClicked ident) st = (rowDeleteClicked ident st, [])"
| "step (ConfirmDeleteClicked deleted loaded) st = confirmDeleteClicked deleted loaded st"
| "step CancelDeleteClicked st = (cancelDeleteClicked st, [])"

text \<open>The state after a sequence of events, from the state of the mounted component.\<close>

definition after :: "event list \<Rightarrow> PageState" where
  "after evs = foldl (\<lambda>st e. fst (step e st)) initialPageState evs"

text \<open>The two events that ask for a confirmation.\<close>

fun isDeleteRequest :: "event \<Rightarrow> bool" where
  "isDeleteRequest DetailDeleteClicked = True"
| "isDeleteRequest (RowDeleteClicked _) = True"
| "isDeleteRequest _ = False"

section \<open>The HTTP client wrapper\<close>

text \<open>
  \<^verbatim>\<open>
  api.interceptors.request.use((config: InternalAxiosRequestConfig) => {
    const token =
      typeof window !== 'undefined' ? localStorage.getItem('admin_token') : null;
    if (token) {
      config.headers = config.headers || {};
      if (typeof config.headers.set === 'function') {
        config.headers.set('Authorization', `Bearer ${token}`);
      } else {
        (config.headers as any)['Authorization'] = `Bearer ${token}`;
      }
    }
    return config;
  });
  \<close>
  The header container is a plain object or a header object of the HTTP library, which
  has a method \<open>set\<close>. The library is not part of the repository: its header objects are
  a type parameter, and their \<open>set\<close> is a parameter of the interceptor.
\<close>

datatype 'h headers = PlainObject "jsstring \<rightharpoonup> jsstring" | AxiosHeaders 'h

record 'h RequestConfig =
  requestUrl :: jsstring
  requestMethod :: jsstring
  headers :: "'h headers option"

record Environment =
  hasWindow :: bool
  localStorage :: "jsstring \<rightharpoonup> jsstring"

definition storedToken :: "Environment \<Rightarrow> jsstring option" where
  "storedToken env = (if hasWindow env then localStorage env (js ''admin_token'') else None)"

definition requestInterceptor ::
  "('h \<Rightarrow> jsstring \<Rightarrow> jsstring \<Rightarrow> 'h) \<Rightarrow> Environment \<Rightarrow> ('h, 'm) RequestConfig_scheme \<Rightarrow>
     ('h, 'm) RequestConfig_scheme" where
  "requestInterceptor headerSet env config =
     (case storedToken env of
        None \<Rightarrow> config
      | Some token \<Rightarrow>
          if token = [] then config
          else
            (let hs = (case headers config of None \<Rightarrow> PlainObject Map.empty | Some h \<Rightarrow> h)
             in case hs of
                  AxiosHeaders h \<Rightarrow>
                    config\<lparr>headers :=
                      Some (AxiosHeaders (headerSet h (js ''Authorization'') (js ''Bearer '' @ token)))\<rparr>
                | PlainObject m \<Rightarrow>
                    config\<lparr>headers :=
                      Some (PlainObject (m(js ''Authorization'' \<mapsto> js ''Bearer '' @ token)))\<rparr>))"

text \<open>Reading a header of a request, with the library's reader for its header objects.\<close>

definition headerOf ::
  "('h \<Rightarrow> jsstring \<Rightarrow> jsstring option) \<Rightarrow> 'h headers option \<Rightarrow> jsstring \<Rightarrow> jsstring option" where
  "headerOf headerGet hs name =
     (case hs of
        None \<Rightarrow> None
      | Some (PlainObject m) \<Rightarrow> m name
      | Some (AxiosHeaders h) \<Rightarrow> headerGet h name)"

section \<open>Sample inputs\<close>

text \<open>
  Concrete props, drafts and callbacks on which the theorems below are run. \<open>helloDraft\<close>
  is the draft a user reaches by typing the four fields of the example
  \<open>{title: "Hello World!", excerpt: "e", content: "c", featuredImage: "http://x/img.png"}\<close>
  into a fresh create form.
\<close>

definition createProps :: BlogFormProps where
  "createProps = \<lparr>blog = None, isLoading = False\<rparr>"

definition loadingProps :: BlogFormProps where
  "loadingProps = \<lparr>blog = None, isLoading = True\<rparr>"

definition pngFile :: File where
  "pngFile = \<lparr>fileName = js ''cover.png'', mimeType = js ''image/png''\<rparr>"

definition helloDraft :: FormState where
  "helloDraft =
     handleInputChange createProps (TextChange FeaturedImage (js ''http://x/img.png''))
       (handleInputChange createProps (TextChange Content (js ''c''))
         (handleInputChange createProps (TextChange Excerpt (js ''e''))
           (handleInputChange createProps (TextChange Title (js ''Hello World!''))
             initialFormState)))"

definition helloData :: CreateBlogData where
  "helloData =
     \<lparr>title = js ''Hello World!'', excerpt = js ''e'', content = js ''c'', tags = [],
      featuredImage = js ''http://x/img.png'', images = [], isPublished = True,
      isFeatured = False, metaDescription = [], slug = js ''hello-world''\<rparr>"

definition sampleBlog :: Blog where
  "sampleBlog =
     \<lparr>blog_id = js ''b1'', blog_title = Some (js ''Old Post''), blog_excerpt = Some (js ''x''),
      blog_content = Some (js ''y''), blog_tags = Some [js ''Foo''],
      blog_featuredImage = Some (js ''http://x/old.png''), blog_images = None,
      blog_isPublished = Some False, blog_isFeatured = None,
      blog_metaDescription = None, blog_slug = Some (js ''old-post''),
      blog_viewCount = 7, blog_readingTime = 2, blog_publishedAt = js ''2024-01-01''\<rparr>"

definition editProps :: BlogFormProps where
  "editProps = \<lparr>blog = Some sampleBlog, isLoading = False\<rparr>"

definition staleDraft :: FormState where
  "staleDraft =
     fst (validateForm createProps
       (handleFeaturedImageChange (Some pngFile) (initialFormState\<lparr>tagInput := js ''abc''\<rparr>)))"

definition rustInput :: FormState where
  "rustInput = initialFormState\<lparr>tagInput := js '' Rust ''\<rparr>"

definition shoutInput :: FormState where
  "shoutInput = (handleAddTag toLowerCase rustInput)\<lparr>tagInput := js ''RUST''\<rparr>"

definition acceptingSave :: "CreateBlogData \<Rightarrow> File option \<Rightarrow> settled" where
  "acceptingSave d f = Fulfilled"

definition failingSave :: "CreateBlogData \<Rightarrow> File option \<Rightarrow> settled" where
  "failingSave d f = Rejected (ErrorObject (js ''Network Error''))"

text \<open>
  A draft with two images, added one after the other, and a third URL typed into the image
  input.
\<close>

definition withImageInput :: "string \<Rightarrow> FormState \<Rightarrow> FormState" where
  "withImageInput u st = st\<lparr>imageInput := \<lparr>inputUrl = js u, inputAlt = [], inputCaption = []\<rparr>\<rparr>"

definition galleryDraft :: FormState where
  "galleryDraft =
     withImageInput ''http://x/c.png''
       (handleAddImage (withImageInput ''http://x/b.png''
         (handleAddImage (withImageInput ''http://x/a.png'' initialFormState))))"

text \<open>
  A header object for the HTTP library's parameter, made as the library's are: a list of
  names and values in which a name is found whatever its case, and \<open>set\<close> writes over
  the value of a name that is there and appends one that is not. It accepts any value, and
  every name that differs from \<open>Authorization\<close> in more than case is another header. And a
  browser that holds the token \<open>abc\<close>, with a request that carries two headers in lower
  case.
\<close>

definition sameName :: "jsstring \<Rightarrow> jsstring \<Rightarrow> bool" where
  "sameName a b = (toLowerCase a = toLowerCase b)"

fun tableGet :: "(jsstring \<times> jsstring) list \<Rightarrow> jsstring \<Rightarrow> jsstring option" where
  "tableGet [] name = None"
| "tableGet ((k, w) # h) name = (if sameName k name then Some w else tableGet h name)"

fun tableSet :: "(jsstring \<times> jsstring) list \<Rightarrow> jsstring \<Rightarrow> jsstring \<Rightarrow> (jsstring \<times> jsstring) list" where
  "tableSet [] name v = [(name, v)]"
| "tableSet ((k, w) # h) name v =
     (if sameName k name then (k, v) # h else (k, w) # tableSet h name v)"

definition anyValue :: "(jsstring \<times> jsstring) list \<Rightarrow> jsstring \<Rightarrow> bool" where
  "anyValue h v = True"

definition otherName :: "jsstring \<Rightarrow> bool" where
  "otherName name = (\<not> sameName name (js ''Authorization''))"

definition browserEnv :: Environment where
  "browserEnv = \<lparr>hasWindow = True, localStorage = [js ''admin_token'' \<mapsto> js ''abc'']\<rparr>"

definition sentHeaders :: "(jsstring \<times> jsstring) list" where
  "sentHeaders =
     [(js ''content-type'', js ''application/json''), (js ''authorization'', js ''Bearer old'')]"

definition jsonRequest :: "(jsstring \<times> jsstring) list RequestConfig" where
  "jsonRequest =
     \<lparr>requestUrl = js ''/blogs'', requestMethod = js ''get'',
      headers = Some (AxiosHeaders sentHeaders)\<rparr>"

section \<open>Slugs\<close>

subsection \<open>Runs, white space and hyphens\<close>

lemma isSpace_not_hyphen: "isSpace c \<Longrightarrow> c \<noteq> hyphen"
  by (auto simp: isSpace_def hyphen_def)

lemma startsWithHyphen_simps [simp]:
  "startsWithHyphen [] = False"
  "startsWithHyphen (c # cs) = (c = hyphen)"
  by (simp_all add: startsWithHyphen_def)

lemma endsWithHyphen_last: "endsWithHyphen s = (s \<noteq> [] \<and> last s = hyphen)"
  by (cases s rule: rev_cases) (simp_all add: endsWithHyphen_def)

lemma trim_Nil: "trim [] = []"
  by (simp add: trim_def)

lemma set_replaceRuns: "set (replaceRuns p r s) \<subseteq> set r \<union> {c \<in> set s. \<not> p c}"
proof (induction p r s rule: replaceRuns.induct)
  case (1 p r)
  then show ?case by simp
next
  case (2 p r c cs)
  have "set (dropWhile p cs) \<subseteq> set cs" by (simp add: set_dropWhileD subsetI)
  with 2 show ?case by (auto split: if_splits)
qed

lemma no_double_hyphen: "\<not> hasDoubleHyphen (replaceRuns (\<lambda>c. c = hyphen) [hyphen] s)"
proof (induction "\<lambda>c. c = hyphen" "[hyphen]" s rule: replaceRuns.induct)
  case 1
  then show ?case by simp
next
  case (2 c cs)
  show ?case
  proof (cases "c = hyphen")
    case True
    let ?d = "dropWhile (\<lambda>c. c = hyphen) cs"
    have ih: "\<not> hasDoubleHyphen (replaceRuns (\<lambda>c. c = hyphen) [hyphen] ?d)"
      using 2(1) True by simp
    show ?thesis
    proof (cases ?d)
      case Nil
      then show ?thesis using True by (simp del: dropWhile_eq_Nil_conv)
    next
      case (Cons x xs)
      then have "x \<noteq> hyphen" using hd_dropWhile[of "\<lambda>c. c = hyphen" cs] by simp
      then show ?thesis using True ih Cons by simp
    qed
  next
    case False
    then have ih: "\<not> hasDoubleHyphen (replaceRuns (\<lambda>c. c = hyphen) [hyphen] cs)"
      using 2(2) by simp
    show ?thesis using False ih
      by (cases "replaceRuns (\<lambda>c. c = hyphen) [hyphen] cs") auto
  qed
qed

lemma starts_filter_dropWhile:
  "startsWithHyphen (filter (\<lambda>c. \<not> isSpace c) f) = startsWithHyphen (dropWhile isSpace f)"
  by (induction f) (auto dest: isSpace_not_hyphen)

lemma filter_dropWhile_same:
  "filter (\<lambda>c. \<not> p c) (dropWhile p f) = filter (\<lambda>c. \<not> p c) f"
  by (induction f) auto

lemma rev_dropWhile_rev_hd:
  "\<not> p x \<Longrightarrow> \<exists>ys. rev (dropWhile p (rev (x # xs))) = x # ys"
proof -
  assume "\<not> p x"
  then have "dropWhile p (rev (x # xs)) = dropWhile p (rev xs) @ [x]"
    by (auto simp: dropWhile_append)
  then show ?thesis by simp
qed

lemma trim_hd: "trim f = [] \<or> \<not> isSpace (hd (trim f))"
proof (cases "dropWhile isSpace f")
  case Nil
  then show ?thesis by (simp add: trim_def del: dropWhile_eq_Nil_conv)
next
  case (Cons x xs)
  then have nx: "\<not> isSpace x" using hd_dropWhile[of isSpace f] by simp
  from rev_dropWhile_rev_hd[of isSpace x xs] Cons nx show ?thesis
    by (auto simp: trim_def)
qed

lemma trim_last: "trim f = [] \<or> \<not> isSpace (last (trim f))"
proof (cases "trim f = []")
  case True
  then show ?thesis by simp
next
  case False
  let ?d = "dropWhile isSpace (rev (dropWhile isSpace f))"
  have d: "?d \<noteq> []" using False by (simp add: trim_def del: dropWhile_eq_Nil_conv)
  then have "\<not> isSpace (hd ?d)" by (rule hd_dropWhile)
  moreover have "last (trim f) = hd ?d" using d by (simp add: trim_def last_rev del: dropWhile_eq_Nil_conv)
  ultimately show ?thesis by simp
qed

lemma starts_trim: "startsWithHyphen (trim f) = startsWithHyphen (dropWhile isSpace f)"
proof (cases "dropWhile isSpace f")
  case Nil
  then show ?thesis by (simp add: trim_def del: dropWhile_eq_Nil_conv)
next
  case (Cons x xs)
  then have nx: "\<not> isSpace x" using hd_dropWhile[of isSpace f] by simp
  from rev_dropWhile_rev_hd[of isSpace x xs] Cons nx show ?thesis
    by (auto simp: trim_def)
qed

lemma ends_trim: "endsWithHyphen (trim f) = endsWithHyphen (filter (\<lambda>c. \<not> isSpace c) f)"
proof -
  have "endsWithHyphen (trim f) = startsWithHyphen (dropWhile isSpace (rev (dropWhile isSpace f)))"
    by (simp add: endsWithHyphen_def trim_def)
  also have "\<dots> = startsWithHyphen (filter (\<lambda>c. \<not> isSpace c) (rev (dropWhile isSpace f)))"
    by (simp add: starts_filter_dropWhile)
  also have "\<dots> = endsWithHyphen (filter (\<lambda>c. \<not> isSpace c) (dropWhile isSpace f))"
    by (simp add: endsWithHyphen_def rev_filter)
  finally show ?thesis by (simp add: filter_dropWhile_same)
qed

lemma replaceRuns_hd_keep:
  "s = [] \<or> \<not> p (hd s) \<Longrightarrow> startsWithHyphen (replaceRuns p r s) = startsWithHyphen s"
  by (cases s) auto

lemma starts_collapse:
  "startsWithHyphen (replaceRuns (\<lambda>c. c = hyphen) [hyphen] u) = startsWithHyphen u"
  by (cases u) auto

lemma replaceRuns_last_keep:
  "s \<noteq> [] \<Longrightarrow> \<not> p (last s) \<Longrightarrow>
     replaceRuns p r s \<noteq> [] \<and> last (replaceRuns p r s) = last s"
proof (induction p r s rule: replaceRuns.induct)
  case (1 p r)
  then show ?case by simp
next
  case (2 p r c cs)
  show ?case
  proof (cases "p c")
    case True
    with 2(3,4) have cs: "cs \<noteq> []" by auto
    with 2(4) have lp: "\<not> p (last cs)" by simp
    have dn: "dropWhile p cs \<noteq> []" using cs lp last_in_set by (auto simp: dropWhile_eq_Nil_conv)
    have "last (dropWhile p cs) = last cs"
      by (metis dn append_Nil2 last_appendR takeWhile_dropWhile_id)
    with 2(1)[OF True dn] lp cs True show ?thesis by simp
  next
    case False
    show ?thesis
    proof (cases "cs = []")
      case True
      with False show ?thesis by simp
    next
      case ne: False
      with 2(4) have "\<not> p (last cs)" by simp
      with 2(2)[OF False ne] False ne show ?thesis by simp
    qed
  qed
qed

lemma replaceRuns_last_run:
  "s \<noteq> [] \<Longrightarrow> p (last s) \<Longrightarrow> r \<noteq> [] \<Longrightarrow>
     replaceRuns p r s \<noteq> [] \<and> last (replaceRuns p r s) = last r"
proof (induction p r s rule: replaceRuns.induct)
  case (1 p r)
  then show ?case by simp
next
  case (2 p r c cs)
  show ?case
  proof (cases "p c")
    case True
    show ?thesis
    proof (cases "dropWhile p cs = []")
      case dn: True
      with True 2(5) show ?thesis by (simp del: dropWhile_eq_Nil_conv)
    next
      case dn: False
      then have cs: "cs \<noteq> []" by auto
      have "last (dropWhile p cs) = last cs"
        by (metis dn append_Nil2 last_appendR takeWhile_dropWhile_id)
      with 2(4) cs have "p (last (dropWhile p cs))" by simp
      with 2(1)[OF True dn _ 2(5)] True dn show ?thesis by simp
    qed
  next
    case False
    with 2(4) have ne: "cs \<noteq> []" by auto
    with 2(4) have "p (last cs)" by simp
    with 2(2)[OF False ne _ 2(5)] False ne show ?thesis by simp
  qed
qed

lemma ends_spaces:
  "t = [] \<or> \<not> isSpace (last t) \<Longrightarrow>
     endsWithHyphen (replaceRuns isSpace [hyphen] t) = endsWithHyphen t"
  using replaceRuns_last_keep[of t isSpace "[hyphen]"]
  by (cases "t = []") (auto simp: endsWithHyphen_last)

lemma ends_collapse:
  "endsWithHyphen (replaceRuns (\<lambda>c. c = hyphen) [hyphen] u) = endsWithHyphen u"
proof (cases "u = []")
  case True
  then show ?thesis by simp
next
  case ne: False
  show ?thesis
  proof (cases "last u = hyphen")
    case True
    with replaceRuns_last_run[of u "\<lambda>c. c = hyphen" "[hyphen]"] ne show ?thesis
      by (simp add: endsWithHyphen_last)
  next
    case False
    with replaceRuns_last_keep[of u "\<lambda>c. c = hyphen" "[hyphen]"] ne show ?thesis
      by (simp add: endsWithHyphen_last)
  qed
qed

lemma starts_spaces_trim:
  "startsWithHyphen (replaceRuns isSpace [hyphen] (trim f)) = startsWithHyphen (trim f)"
  using trim_hd[of f] by (rule replaceRuns_hd_keep)

lemma ends_spaces_trim:
  "endsWithHyphen (replaceRuns isSpace [hyphen] (trim f)) = endsWithHyphen (trim f)"
  using trim_last[of f] by (rule ends_spaces)

lemma starts_generateSlug: "startsWithHyphen (generateSlug T) = startsWithHyphen (keptVisible T)"
  unfolding generateSlug_def keptVisible_def
  by (simp only: starts_collapse starts_spaces_trim starts_trim
      starts_filter_dropWhile)

lemma ends_generateSlug: "endsWithHyphen (generateSlug T) = endsWithHyphen (keptVisible T)"
  unfolding generateSlug_def keptVisible_def
  by (simp only: ends_collapse ends_spaces_trim ends_trim)

subsection \<open>The characters of a slug\<close>

lemma lowerUnit_slugChar: "isSlugChar c \<Longrightarrow> lowerUnit c = [c]"
  unfolding isSlugChar_def lowerUnit_def hyphen_def by (auto simp: word_le_nat_alt)

lemma lowerUnit_hyphen: "hyphen \<in> set (lowerUnit c) \<Longrightarrow> c = hyphen"
  unfolding lowerUnit_def hyphen_def by (auto simp: word_le_nat_alt split: if_splits)

lemma keptVisible_hyphen: "hyphen \<in> set (keptVisible T) \<Longrightarrow> hyphen \<in> set T"
  by (auto simp: keptVisible_def toLowerCase_def dest: lowerUnit_hyphen)

lemma starts_in_set: "startsWithHyphen s \<Longrightarrow> hyphen \<in> set s"
  by (cases s) auto

lemma slug_chars: "c \<in> set (generateSlug T) \<Longrightarrow> isSlugChar c"
proof -
  assume "c \<in> set (generateSlug T)"
  then have "c = hyphen \<or> c \<in> set (replaceRuns isSpace [hyphen] (trim (filter slugKeep (toLowerCase T))))"
    using set_replaceRuns[of "\<lambda>c. c = hyphen" "[hyphen]"] by (auto simp: generateSlug_def)
  then have "c = hyphen \<or> (c \<in> set (trim (filter slugKeep (toLowerCase T))) \<and> \<not> isSpace c)"
    using set_replaceRuns[of isSpace "[hyphen]"] by auto
  moreover have "set (trim s) \<subseteq> set s" for s
    by (auto simp: trim_def dest!: set_dropWhileD)
  then have "set (trim (filter slugKeep (toLowerCase T))) \<subseteq> {c. slugKeep c}"
    by fastforce
  ultimately have "c = hyphen \<or> (slugKeep c \<and> \<not> isSpace c)" by blast
  then show ?thesis by (auto simp: isSlugChar_def slugKeep_def)
qed

lemma toLowerCase_fixed: "list_all isSlugChar s \<Longrightarrow> toLowerCase s = s"
  by (induction s) (simp_all add: toLowerCase_def lowerUnit_slugChar)

lemma hello_slug: "generateSlug (js ''Hello World!'') = js ''hello-world''"
  "hyphen \<notin> set (js ''Hello World!'')"
  by code_simp+

text \<open>
  C1, as stated, fails: \<open>generateSlug\<close> keeps the hyphens of the title, and only white space
  is trimmed, before it becomes hyphens. The title \<open>-hello-\<close> is its own slug, with a leading
  and a trailing hyphen.
\<close>

theorem generateSlug_leading_trailing_hyphen:
  "generateSlug (js ''-hello-'') = js ''-hello-'' \<and>
   startsWithHyphen (generateSlug (js ''-hello-'')) \<and>
   endsWithHyphen (generateSlug (js ''-hello-''))"
  by code_simp

text \<open>
  C1, amended. For every title \<open>T\<close>, the slug \<open>generateSlug T\<close> is lower case (lower-casing
  it again changes nothing), has no code unit outside \<open>[a-z0-9-]\<close> and no two hyphens in a
  row. It begins with a hyphen exactly when the first code unit of the title that is kept
  and is not white space is a hyphen, and it ends with one exactly when the last such code
  unit is a hyphen; so a title with no hyphen in it gives a slug with no leading and no
  trailing hyphen.
\<close>

theorem generateSlug_shape:
  "toLowerCase (generateSlug T) = generateSlug T \<and>
   list_all isSlugChar (generateSlug T) \<and>
   \<not> hasDoubleHyphen (generateSlug T) \<and>
   startsWithHyphen (generateSlug T) = startsWithHyphen (keptVisible T) \<and>
   endsWithHyphen (generateSlug T) = endsWithHyphen (keptVisible T) \<and>
   (hyphen \<notin> set T \<longrightarrow>
      \<not> startsWithHyphen (generateSlug T) \<and> \<not> endsWithHyphen (generateSlug T))"
proof -
  have chars: "list_all isSlugChar (generateSlug T)"
    by (simp add: list_all_iff slug_chars)
  have nodouble: "\<not> hasDoubleHyphen (generateSlug T)"
    by (simp add: generateSlug_def no_double_hyphen)
  have none: "\<not> startsWithHyphen (keptVisible T) \<and> \<not> endsWithHyphen (keptVisible T)"
    if "hyphen \<notin> set T"
  proof -
    from that have "hyphen \<notin> set (keptVisible T)" using keptVisible_hyphen by blast
    then show ?thesis
      using starts_in_set[of "keptVisible T"] starts_in_set[of "rev (keptVisible T)"]
      by (auto simp: endsWithHyphen_def)
  qed
  show ?thesis
    using chars nodouble none
    by (simp add: toLowerCase_fixed starts_generateSlug ends_generateSlug)
qed

theorem generateSlug_shape_witness:
  "list_all isSlugChar (generateSlug (js ''Hello World!'')) \<and>
   \<not> hasDoubleHyphen (generateSlug (js ''Hello World!'')) \<and>
   \<not> startsWithHyphen (generateSlug (js ''Hello World!'')) \<and>
   \<not> endsWithHyphen (generateSlug (js ''Hello World!'')) \<and>
   generateSlug (js ''Hello World!'') = js ''hello-world''"
  using generateSlug_shape [of "js ''Hello World!''"] hello_slug
  by blast

section \<open>Submission\<close>

lemma createProps_simps:
  "isLoading createProps = False" "blog createProps = None"
  by (simp_all add: createProps_def)

lemma helloDraft_eval:
  "helloDraft = initialFormState\<lparr>formData := helloData\<rparr>"
  by code_simp

lemma helloDraft_fields:
  "formData helloDraft = helloData" "featuredImageFile helloDraft = None"
  by (simp_all add: helloDraft_eval initialFormState_def)

lemma stagedDraft_fields:
  "formData (handleFeaturedImageChange (Some pngFile) helloDraft) = helloData"
  "featuredImageFile (handleFeaturedImageChange (Some pngFile) helloDraft) = Some pngFile"
  by (simp_all add: handleFeaturedImageChange_def helloDraft_fields)

lemma helloDraft_valid: "validateForm createProps helloDraft = (helloDraft, True)"
  by code_simp

lemma helloDraft_staged_valid:
  "validateForm createProps (handleFeaturedImageChange (Some pngFile) helloDraft)
     = (handleFeaturedImageChange (Some pngFile) helloDraft, True)"
  by code_simp

lemma validateForm_fields:
  "formData (fst (validateForm props st)) = formData st"
  "featuredImageFile (fst (validateForm props st)) = featuredImageFile st"
  "featuredImagePreview (fst (validateForm props st)) = featuredImagePreview st"
  "tagInput (fst (validateForm props st)) = tagInput st"
  "imageInput (fst (validateForm props st)) = imageInput st"
  by (simp_all add: validateForm_def Let_def)

lemma handleSubmit_state:
  "fst (handleSubmit props onSave st) = (if isLoading props then st else fst (validateForm props st))"
  by (simp add: handleSubmit_def Let_def split: prod.splits settled.splits)

text \<open>
  C2. \<open>handleSubmit\<close> calls the save callback exactly when the form is not loading and the
  draft validates, and then once: the first argument is the draft, with \<open>featuredImage\<close>
  set to the empty string if a file is staged and the whole draft as it is if none is; the
  second argument is the staged file, or nothing.
\<close>

theorem handleSubmit_payload:
  "saveCalls (fst (snd (handleSubmit props onSave st))) =
     (if isLoading props \<or> \<not> snd (validateForm props st) then []
      else [(case featuredImageFile st of
               Some f \<Rightarrow> (formData st)\<lparr>featuredImage := []\<rparr>
             | None \<Rightarrow> formData st,
             featuredImageFile st)])"
  by (auto simp: handleSubmit_def Let_def split: prod.splits settled.splits option.splits)

theorem handleSubmit_payload_witness:
  "saveCalls (fst (snd (handleSubmit createProps acceptingSave helloDraft)))
     = [(helloData, None)] \<and>
   saveCalls (fst (snd (handleSubmit createProps acceptingSave
       (handleFeaturedImageChange (Some pngFile) helloDraft))))
     = [(helloData\<lparr>featuredImage := []\<rparr>, Some pngFile)]"
  using handleSubmit_payload [of createProps acceptingSave helloDraft]
    handleSubmit_payload [of createProps acceptingSave
      "handleFeaturedImageChange (Some pngFile) helloDraft"]
  by (simp add: helloDraft_valid helloDraft_staged_valid createProps_simps
      helloDraft_fields stagedDraft_fields)

text \<open>
  C3, as stated, fails: \<open>handleSubmit\<close> returns at once while \<open>isLoading\<close> is set, before it
  validates. A submission of the empty form of a loading component leaves the error mapping
  as it was, here empty, and not with the five keys.
\<close>

theorem handleSubmit_empty_ignored_while_loading:
  "trim (title (formData initialFormState)) = [] \<and>
   trim (excerpt (formData initialFormState)) = [] \<and>
   trim (content (formData initialFormState)) = [] \<and>
   trim (slug (formData initialFormState)) = [] \<and>
   trim (featuredImage (formData initialFormState)) = [] \<and>
   featuredImageFile initialFormState = None \<and>
   blog loadingProps = None \<and>
   keys (errors (fst (handleSubmit loadingProps acceptingSave initialFormState))) = [] \<and>
   set (keys (errors (fst (handleSubmit loadingProps acceptingSave initialFormState))))
     \<noteq> {Text Title, Text Excerpt, Text Content, Text Slug, Text FeaturedImage}"
  by (simp add: handleSubmit_def loadingProps_def initialFormState_def emptyFormData_def
      trim_Nil keys_def)

text \<open>
  C3, amended. Let title, excerpt, content and slug be empty (or white space only), no file
  be staged, the \<open>featuredImage\<close> of the draft be empty and the edited entity, if there is
  one, have no \<open>featuredImage\<close>. If the form is not loading, a submission produces an error
  mapping whose keys are exactly \<open>title\<close>, \<open>excerpt\<close>, \<open>content\<close>, \<open>featuredImage\<close> and
  \<open>slug\<close>, five entries, and the save callback is not called. If the form is loading, the
  submission is ignored: no validation, the state as it was, no effect.
\<close>

theorem handleSubmit_empty_blocked:
  assumes "trim (title (formData st)) = []"
    and "trim (excerpt (formData st)) = []"
    and "trim (content (formData st)) = []"
    and "trim (slug (formData st)) = []"
    and "featuredImageFile st = None"
    and "trim (featuredImage (formData st)) = []"
    and "case blog props of None \<Rightarrow> True | Some b \<Rightarrow> orElse (blog_featuredImage b) = []"
  shows "(\<not> isLoading props \<longrightarrow>
            keys (errors (fst (handleSubmit props onSave st)))
              = [Text Title, Text Excerpt, Text Content, Text FeaturedImage, Text Slug] \<and>
            set (keys (errors (fst (handleSubmit props onSave st))))
              = {Text Title, Text Excerpt, Text Content, Text Slug, Text FeaturedImage} \<and>
            length (keys (errors (fst (handleSubmit props onSave st)))) = 5 \<and>
            saveCalls (fst (snd (handleSubmit props onSave st))) = []) \<and>
         (isLoading props \<longrightarrow> handleSubmit props onSave st = (st, [], Fulfilled))"
proof -
  have v: "validateForm props st =
      (st\<lparr>errors := [(Text Title, js ''Title is required''),
                      (Text Excerpt, js ''Excerpt is required''),
                      (Text Content, js ''Content is required''),
                      (Text FeaturedImage, js ''Featured image is required''),
                      (Text Slug, js ''Slug is required'')]\<rparr>, False)"
    using assms by (auto simp: validateForm_def Let_def keys_def split: option.splits)
  show ?thesis
    by (auto simp: handleSubmit_def v keys_def)
qed

theorem handleSubmit_empty_blocked_witness:
  "keys (errors (fst (handleSubmit createProps acceptingSave initialFormState)))
     = [Text Title, Text Excerpt, Text Content, Text FeaturedImage, Text Slug] \<and>
   saveCalls (fst (snd (handleSubmit createProps acceptingSave initialFormState))) = [] \<and>
   handleSubmit loadingProps acceptingSave initialFormState
     = (initialFormState, [], Fulfilled)"
  using handleSubmit_empty_blocked [of initialFormState createProps acceptingSave]
    handleSubmit_empty_blocked [of initialFormState loadingProps acceptingSave]
  by (simp add: initialFormState_def emptyFormData_def trim_Nil createProps_def loadingProps_def)

lemma failingSave_called:
  "saveCalls (fst (snd (handleSubmit createProps failingSave helloDraft))) = [(helloData, None)]"
  by code_simp

text \<open>
  C9. If a submission calls the save callback and the callback rejects, the promise of
  \<open>handleSubmit\<close> is fulfilled all the same (the rejection stops at the handler), the user
  gets one alert, \<open>Error saving blog: \<close> followed by the message of the error or by
  \<open>Unknown error\<close>, and the form is left as validation left it: the draft, the staged
  file, the preview and the tag and image inputs are those from before the submission, and
  the state is the one a submission with a fulfilled callback leaves.
\<close>

theorem rejected_save_is_caught:
  assumes "(d, f) \<in> set (saveCalls (fst (snd (handleSubmit props onSave st))))"
    and "onSave d f = Rejected err"
  shows "snd (snd (handleSubmit props onSave st)) = Fulfilled \<and>
         alerts (fst (snd (handleSubmit props onSave st)))
           = [js ''Error saving blog: '' @
               (case err of ErrorObject m \<Rightarrow> m | OtherValue \<Rightarrow> js ''Unknown error'')] \<and>
         formData (fst (handleSubmit props onSave st)) = formData st \<and>
         featuredImageFile (fst (handleSubmit props onSave st)) = featuredImageFile st \<and>
         featuredImagePreview (fst (handleSubmit props onSave st)) = featuredImagePreview st \<and>
         tagInput (fst (handleSubmit props onSave st)) = tagInput st \<and>
         imageInput (fst (handleSubmit props onSave st)) = imageInput st \<and>
         fst (handleSubmit props onSave st) = fst (validateForm props st) \<and>
         fst (handleSubmit props onSave st) = fst (handleSubmit props (\<lambda>d f. Fulfilled) st)"
proof -
  obtain st' ok where v: "validateForm props st = (st', ok)"
    by (cases "validateForm props st")
  from assms(1) have run: "\<not> isLoading props" "ok"
    by (auto simp: handleSubmit_def v split: if_splits)
  let ?d = "(formData st)\<lparr>featuredImage :=
      (case featuredImageFile st of Some f \<Rightarrow> [] | None \<Rightarrow> featuredImage (formData st))\<rparr>"
  from assms(1) run have df: "d = ?d" "f = featuredImageFile st"
    by (auto simp: handleSubmit_def v Let_def split: settled.splits)
  with assms(2) have rej: "onSave ?d (featuredImageFile st) = Rejected err" by simp
  have h: "handleSubmit props onSave st =
      (st', [OnSave ?d (featuredImageFile st), ConsoleError (js ''Error saving blog:'') err,
             Alert (js ''Error saving blog: '' @
               (case err of ErrorObject m \<Rightarrow> m | OtherValue \<Rightarrow> js ''Unknown error''))],
       Fulfilled)"
    using run rej by (simp add: handleSubmit_def v Let_def)
  have s: "st' = fst (validateForm props st)" by (simp add: v)
  show ?thesis
    unfolding h using run
    by (simp add: s validateForm_fields handleSubmit_state)
qed

theorem rejected_save_is_caught_witness:
  "alerts (fst (snd (handleSubmit createProps failingSave helloDraft)))
     = [js ''Error saving blog: Network Error''] \<and>
   snd (snd (handleSubmit createProps failingSave helloDraft)) = Fulfilled \<and>
   formData (fst (handleSubmit createProps failingSave helloDraft)) = helloData \<and>
   failingSave helloData None = Rejected (ErrorObject (js ''Network Error''))"
proof -
  have called: "(helloData, None)
      \<in> set (saveCalls (fst (snd (handleSubmit createProps failingSave helloDraft))))"
    by (simp add: failingSave_called)
  have rejected: "failingSave helloData None = Rejected (ErrorObject (js ''Network Error''))"
    by (simp add: failingSave_def)
  have message: "js ''Error saving blog: '' @ js ''Network Error''
      = js ''Error saving blog: Network Error''"
    by (simp add: js_def)
  from rejected_save_is_caught [OF called rejected] rejected message show ?thesis
    by (simp add: helloDraft_fields validateForm_fields)
qed

text \<open>
  The save callbacks of this repository are the two handlers of the controller, which
  catch the failures of the service themselves: their promises are always fulfilled.
\<close>

lemma controller_callbacks_settle:
  "snd (snd (handleCreateBlog d f saved loaded st)) = Fulfilled"
  "snd (snd (handleUpdateBlog d f saved loaded st)) = Fulfilled"
  by (simp_all add: handleCreateBlog_def handleUpdateBlog_def Let_def
      split: response.splits prod.splits)

section \<open>The effect on the supplied entity\<close>

lemma staleDraft_eval:
  "featuredImageFile staleDraft = Some pngFile \<and> length (errors staleDraft) = 4"
  by code_simp

lemma sample_changes:
  "\<not> sameObject None (Some (1, sampleBlog))"
  "\<not> sameObject (Some (1, sampleBlog)) (Some (2, sampleBlog))"
  "\<not> sameObject (Some (1, sampleBlog)) None"
  by (simp_all add: sameObject_def)

text \<open>
  C4. When the supplied entity changes, that is, when the \<open>blog\<close> prop of a render is not
  the object of the render before (another entity, the same entity fetched anew, none
  where there was one, or one where there was none), the draft becomes the fields of the
  new entity, each with its default where the entity has no value, or the defaults of a
  create form when there is no entity; the staged file is dropped, the preview is the
  entity's image or empty, and the error mapping is empty. Nothing of the former draft is
  left: two forms in any two states agree on draft and preview afterwards. The text typed
  into the tag input and the image input, which are not part of the draft, stays.
\<close>

theorem blog_change_resets_draft:
  assumes "\<not> sameObject previous next"
  shows "formData (rerender previous next st)
           = (case next of
                Some (address, b) \<Rightarrow>
                  \<lparr>title = orElse (blog_title b), excerpt = orElse (blog_excerpt b),
                   content = orElse (blog_content b), tags = orElse (blog_tags b),
                   featuredImage = orElse (blog_featuredImage b),
                   images = orElse (blog_images b),
                   isPublished = coalesce (blog_isPublished b) True,
                   isFeatured = coalesce (blog_isFeatured b) False,
                   metaDescription = orElse (blog_metaDescription b),
                   slug = orElse (blog_slug b)\<rparr>
              | None \<Rightarrow>
                  \<lparr>title = [], excerpt = [], content = [], tags = [], featuredImage = [],
                   images = [], isPublished = True, isFeatured = False,
                   metaDescription = [], slug = []\<rparr>) \<and>
         featuredImageFile (rerender previous next st) = None \<and>
         featuredImagePreview (rerender previous next st)
           = (case next of Some (address, b) \<Rightarrow> orElse (blog_featuredImage b) | None \<Rightarrow> []) \<and>
         errors (rerender previous next st) = [] \<and>
         formData (rerender previous next st) = formData (rerender previous next st') \<and>
         featuredImagePreview (rerender previous next st)
           = featuredImagePreview (rerender previous next st') \<and>
         tagInput (rerender previous next st) = tagInput st \<and>
         imageInput (rerender previous next st) = imageInput st"
  using assms
  by (simp add: rerender_def blogEffect_def initialFormData_def emptyFormData_def
      split: option.splits prod.splits)

theorem blog_change_resets_draft_witness:
  "title (formData (rerender None (Some (1, sampleBlog)) staleDraft)) = js ''Old Post'' \<and>
   isPublished (formData (rerender None (Some (1, sampleBlog)) staleDraft)) = False \<and>
   isFeatured (formData (rerender None (Some (1, sampleBlog)) staleDraft)) = False \<and>
   featuredImageFile (rerender None (Some (1, sampleBlog)) staleDraft) = None \<and>
   errors (rerender None (Some (1, sampleBlog)) staleDraft) = [] \<and>
   featuredImageFile (rerender (Some (1, sampleBlog)) (Some (2, sampleBlog)) staleDraft) = None \<and>
   errors (rerender (Some (1, sampleBlog)) (Some (2, sampleBlog)) staleDraft) = [] \<and>
   title (formData (rerender (Some (1, sampleBlog)) (Some (2, sampleBlog)) staleDraft))
     = js ''Old Post'' \<and>
   formData (rerender (Some (1, sampleBlog)) None helloDraft) = emptyFormData \<and>
   featuredImageFile staleDraft = Some pngFile \<and> length (errors staleDraft) = 4"
  using blog_change_resets_draft [OF sample_changes(1), of staleDraft staleDraft]
    blog_change_resets_draft [OF sample_changes(2), of staleDraft staleDraft]
    blog_change_resets_draft [OF sample_changes(3), of helloDraft helloDraft]
    staleDraft_eval
  by (simp add: sampleBlog_def orElse_def coalesce_def emptyFormData_def)

section \<open>Field changes and tags\<close>

lemma helloTitle_slug: "generateSlug (js ''Hello World!'') = js ''hello-world''"
  by code_simp

lemma trim_oldpost: "trim (js ''old-post'') \<noteq> []"
  by code_simp

text \<open>
  C5, as stated, fails in its last part: the slug input is a field other than the title
  and not a checkbox, and a change of it sets the slug.
\<close>

theorem slug_input_changes_slug:
  "slug (formData (handleInputChange createProps (TextChange Slug (js ''my-slug''))
      initialFormState)) = js ''my-slug'' \<and>
   slug (formData initialFormState) = [] \<and>
   js ''my-slug'' \<noteq> []"
  by (simp add: handleInputChange_def setText_def initialFormState_def emptyFormData_def js_def)

text \<open>
  C5, amended. A change of the title sets the slug to \<open>generateSlug\<close> of the new title,
  unless an entity is being edited and the current slug is not empty after trimming; then
  the slug stays. A change of a text field other than title and slug leaves the slug as it
  is, and a change of the slug field sets the slug to the value typed.
\<close>

theorem handleInputChange_slug:
  "slug (formData (handleInputChange props (TextChange Title v) st))
     = (if blog props \<noteq> None \<and> trim (slug (formData st)) \<noteq> []
        then slug (formData st) else generateSlug v) \<and>
   (n \<noteq> Title \<and> n \<noteq> Slug \<longrightarrow>
      slug (formData (handleInputChange props (TextChange n v) st)) = slug (formData st)) \<and>
   slug (formData (handleInputChange props (TextChange Slug v) st)) = v"
  by (cases n) (auto simp: handleInputChange_def setText_def Let_def)

theorem handleInputChange_slug_witness:
  "slug (formData (handleInputChange createProps (TextChange Title (js ''Hello World!''))
      initialFormState)) = js ''hello-world'' \<and>
   slug (formData (handleInputChange editProps (TextChange Title (js ''Hello World!''))
      (blogEffect (Some sampleBlog) initialFormState))) = js ''old-post'' \<and>
   slug (formData (handleInputChange editProps (TextChange Excerpt (js ''Hello World!''))
      (blogEffect (Some sampleBlog) initialFormState))) = js ''old-post''"
  using handleInputChange_slug [of createProps "js ''Hello World!''" initialFormState Title]
    handleInputChange_slug [of editProps "js ''Hello World!''"
      "blogEffect (Some sampleBlog) initialFormState" Excerpt]
    trim_oldpost
  by (simp add: createProps_def editProps_def helloTitle_slug blogEffect_def initialFormData_def
      sampleBlog_def orElse_def)

lemma rustInput_eval:
  "trim (tagInput rustInput) \<noteq> []"
  "toLowerCase (trim (tagInput rustInput)) \<notin> set (tags (formData rustInput))"
  "tags (formData rustInput) @ [toLowerCase (trim (tagInput rustInput))] = [js ''rust'']"
  "trim (tagInput initialFormState) = []"
  "toLowerCase (trim (tagInput shoutInput)) = js ''rust''"
  "tags (formData shoutInput) = [js ''rust'']"
  by code_simp+

lemma latin1_trim: "latin1 s \<Longrightarrow> latin1 (trim s)"
proof -
  have "set (trim s) \<subseteq> set s"
    by (auto simp: trim_def dest!: set_dropWhileD)
  then show "latin1 s \<Longrightarrow> latin1 (trim s)"
    by (auto simp: latin1_def list_all_iff)
qed

lemma toLowerCase_lowersLatin1: "lowersLatin1 toLowerCase"
  by (simp add: lowersLatin1_def)

text \<open>
  C6, as stated, fails twice. A tag input of white space only is not in the tag set, yet
  nothing is appended and the input is not cleared. And the test for a duplicate compares
  the lower-cased input with the stored tags as they are: an entity that came with the tag
  \<open>Foo\<close> gets \<open>foo\<close> appended, although the two are equal when case is ignored. Both
  inputs are ASCII, where the host lower-cases as the table \<open>toLowerCase\<close> does.
\<close>

theorem handleAddTag_blank_and_mixed_case:
  "toLowerCase (trim (tagInput (initialFormState\<lparr>tagInput := js ''  ''\<rparr>)))
      \<notin> set (tags (formData (initialFormState\<lparr>tagInput := js ''  ''\<rparr>))) \<and>
   tags (formData (handleAddTag toLowerCase (initialFormState\<lparr>tagInput := js ''  ''\<rparr>))) = [] \<and>
   tagInput (handleAddTag toLowerCase (initialFormState\<lparr>tagInput := js ''  ''\<rparr>)) = js ''  '' \<and>
   toLowerCase (js ''Foo'') = toLowerCase (toLowerCase (trim (js '' foo''))) \<and>
   tags (formData (blogEffect (Some sampleBlog) initialFormState)) = [js ''Foo''] \<and>
   tags (formData (handleAddTag toLowerCase
       ((blogEffect (Some sampleBlog) initialFormState)\<lparr>tagInput := js '' foo''\<rparr>)))
     = [js ''Foo'', js ''foo'']"
  by code_simp

text \<open>
  C6, amended. With \<open>lower\<close> the host's \<open>toLowerCase\<close>: if the trimmed input is empty, or
  the trimmed, lower-cased input is one of the stored tags (compared as strings),
  \<open>handleAddTag\<close> changes nothing. Otherwise it appends the trimmed, lower-cased input to
  the tags and clears the tag input. Adding the same input a second time leaves the tags as
  the first addition left them. Where every stored tag is lower case, being one of the
  stored tags is the same as being equal to one of them when case is ignored. For an input
  of code units up to U+00FF, which the host lower-cases by the table \<open>toLowerCase\<close>,
  the tag is the one the table gives.
\<close>

theorem handleAddTag_cases:
  "(trim (tagInput st) = [] \<or> lower (trim (tagInput st)) \<in> set (tags (formData st))
      \<longrightarrow> handleAddTag lower st = st) \<and>
   (trim (tagInput st) \<noteq> [] \<and> lower (trim (tagInput st)) \<notin> set (tags (formData st))
      \<longrightarrow> tags (formData (handleAddTag lower st))
            = tags (formData st) @ [lower (trim (tagInput st))] \<and>
          tagInput (handleAddTag lower st) = []) \<and>
   tags (formData (handleAddTag lower ((handleAddTag lower st)\<lparr>tagInput := tagInput st\<rparr>)))
     = tags (formData (handleAddTag lower st)) \<and>
   ((\<forall>t \<in> set (tags (formData st)). lower t = t) \<longrightarrow>
      (\<exists>t \<in> set (tags (formData st)). lower t = lower (trim (tagInput st)))
        = (lower (trim (tagInput st)) \<in> set (tags (formData st)))) \<and>
   (lowersLatin1 lower \<and> latin1 (tagInput st) \<longrightarrow>
      lower (trim (tagInput st)) = toLowerCase (trim (tagInput st)) \<and>
      handleAddTag lower st = handleAddTag toLowerCase st)"
proof -
  have pin: "lower (trim (tagInput st)) = toLowerCase (trim (tagInput st))"
    if "lowersLatin1 lower" "latin1 (tagInput st)"
    using that latin1_trim [of "tagInput st"] by (simp add: lowersLatin1_def)
  then have same: "handleAddTag lower st = handleAddTag toLowerCase st"
    if "lowersLatin1 lower" "latin1 (tagInput st)"
    using that by (simp add: handleAddTag_def)
  have rest: "(trim (tagInput st) = [] \<or> lower (trim (tagInput st)) \<in> set (tags (formData st))
      \<longrightarrow> handleAddTag lower st = st) \<and>
   (trim (tagInput st) \<noteq> [] \<and> lower (trim (tagInput st)) \<notin> set (tags (formData st))
      \<longrightarrow> tags (formData (handleAddTag lower st))
            = tags (formData st) @ [lower (trim (tagInput st))] \<and>
          tagInput (handleAddTag lower st) = []) \<and>
   tags (formData (handleAddTag lower ((handleAddTag lower st)\<lparr>tagInput := tagInput st\<rparr>)))
     = tags (formData (handleAddTag lower st)) \<and>
   ((\<forall>t \<in> set (tags (formData st)). lower t = t) \<longrightarrow>
      (\<exists>t \<in> set (tags (formData st)). lower t = lower (trim (tagInput st)))
        = (lower (trim (tagInput st)) \<in> set (tags (formData st))))"
    by (auto simp: handleAddTag_def)
  from rest pin same show ?thesis by blast
qed

theorem handleAddTag_cases_witness:
  "tags (formData (handleAddTag toLowerCase rustInput)) = [js ''rust''] \<and>
   tagInput (handleAddTag toLowerCase rustInput) = [] \<and>
   tags (formData (handleAddTag toLowerCase
      ((handleAddTag toLowerCase rustInput)\<lparr>tagInput := tagInput rustInput\<rparr>)))
     = [js ''rust''] \<and>
   handleAddTag toLowerCase initialFormState = initialFormState \<and>
   tags (formData shoutInput) = [js ''rust''] \<and>
   handleAddTag toLowerCase shoutInput = shoutInput \<and>
   lowersLatin1 toLowerCase"
  using handleAddTag_cases [of rustInput toLowerCase]
    handleAddTag_cases [of initialFormState toLowerCase]
    handleAddTag_cases [of shoutInput toLowerCase]
  by (simp add: rustInput_eval toLowerCase_lowersLatin1)

section \<open>Images\<close>

lemma filterIndexNot_shift:
  "map fst (filter (\<lambda>(x, i). i \<noteq> index) (zip xs [k..<k + length xs]))
     = (if k \<le> index then take (index - k) xs @ drop (Suc (index - k)) xs else xs)"
proof (induction xs arbitrary: k)
  case Nil
  then show ?case by simp
next
  case (Cons x xs)
  have up: "[k..<k + length (x # xs)] = k # [Suc k..<Suc k + length xs]"
    using upt_conv_Cons[of k "k + length (x # xs)"] by simp
  show ?case
  proof (cases "k = index")
    case True
    with Cons[of "Suc k"] show ?thesis unfolding up by simp
  next
    case False
    show ?thesis
    proof (cases "k < index")
      case True
      then have "index - k = Suc (index - Suc k)" by simp
      with Cons[of "Suc k"] True False show ?thesis unfolding up by simp
    next
      case ge: False
      with Cons[of "Suc k"] False show ?thesis unfolding up by simp
    qed
  qed
qed

lemma filterIndexNot_take_drop:
  "filterIndexNot index xs = take index xs @ drop (Suc index) xs"
  using filterIndexNot_shift[of index xs 0] by (simp add: filterIndexNot_def)

lemma galleryDraft_eval:
  "map order (images (formData galleryDraft)) = [0, 1]"
  "length (images (formData galleryDraft)) = 2"
  "trim (inputUrl (imageInput galleryDraft)) \<noteq> []"
  "drop (Suc 0) (images (formData galleryDraft))
     = [\<lparr>url = js ''http://x/b.png'', alt = [], caption = [], order = 1\<rparr>]"
  "map order (images (formData (handleAddImage (handleRemoveImage 0 galleryDraft)))) = [1, 1]"
  by code_simp+

text \<open>
  C10. Removing the image at index \<open>i\<close> leaves the list of the other images, each as it
  was, in the same sequence. An addition (the URL typed is not blank) appends an entry whose
  \<open>order\<close> is the length of the list at that moment. So the \<open>order\<close> values need not stay
  unique or contiguous: from a list with the orders \<open>0, 1, ..., n - 1\<close>, removing any image
  but the last and adding one gives the order \<open>n - 1\<close> twice.
\<close>

theorem image_removal_and_order:
  "images (formData (handleRemoveImage i st))
     = take i (images (formData st)) @ drop (Suc i) (images (formData st)) \<and>
   (trim (inputUrl (imageInput st)) \<noteq> [] \<longrightarrow>
      images (formData (handleAddImage st))
        = images (formData st) @
            [\<lparr>url = trim (inputUrl (imageInput st)), alt = trim (inputAlt (imageInput st)),
              caption = trim (inputCaption (imageInput st)),
              order = length (images (formData st))\<rparr>]) \<and>
   (trim (inputUrl (imageInput st)) \<noteq> [] \<and>
    map order (images (formData st)) = [0..<length (images (formData st))] \<and>
    Suc i < length (images (formData st)) \<longrightarrow>
      \<not> distinct (map order (images (formData (handleAddImage (handleRemoveImage i st))))) \<and>
      map order (images (formData (handleAddImage (handleRemoveImage i st))))
        \<noteq> [0..<length (images (formData (handleAddImage (handleRemoveImage i st))))])"
proof -
  let ?xs = "images (formData st)"
  let ?n = "length ?xs"
  have rm: "images (formData (handleRemoveImage i st)) = take i ?xs @ drop (Suc i) ?xs"
    by (simp add: handleRemoveImage_def filterIndexNot_take_drop)
  have add: "images (formData (handleAddImage s))
        = images (formData s) @
            [\<lparr>url = trim (inputUrl (imageInput s)), alt = trim (inputAlt (imageInput s)),
              caption = trim (inputCaption (imageInput s)),
              order = length (images (formData s))\<rparr>]"
    if "trim (inputUrl (imageInput s)) \<noteq> []" for s
    using that by (simp add: handleAddImage_def)
  have dup: "\<not> distinct (map order (images (formData (handleAddImage (handleRemoveImage i st))))) \<and>
      map order (images (formData (handleAddImage (handleRemoveImage i st))))
        \<noteq> [0..<length (images (formData (handleAddImage (handleRemoveImage i st))))]"
    if u: "trim (inputUrl (imageInput st)) \<noteq> []"
      and o: "map order ?xs = [0..<?n]" and i: "Suc i < ?n"
  proof -
    have u': "trim (inputUrl (imageInput (handleRemoveImage i st))) \<noteq> []"
      using u by (simp add: handleRemoveImage_def)
    have len: "length (take i ?xs @ drop (Suc i) ?xs) = ?n - 1"
      using i by simp
    have "map order (drop (Suc i) ?xs) = drop (Suc i) [0..<?n]"
      using o by (simp add: drop_map [symmetric])
    then have tail: "map order (drop (Suc i) ?xs) = [Suc i..<?n]"
      by (simp add: drop_upt)
    have mem: "?n - 1 \<in> set (map order (drop (Suc i) ?xs))"
      unfolding tail using i by (simp; arith)
    have all: "map order (images (formData (handleAddImage (handleRemoveImage i st))))
        = map order (take i ?xs) @ map order (drop (Suc i) ?xs) @ [?n - 1]"
      using add[OF u'] rm len by simp
    have nd: "\<not> distinct (map order (images (formData (handleAddImage (handleRemoveImage i st)))))"
      unfolding all using mem by auto
    moreover have "distinct [0..<k]" for k by simp
    ultimately show ?thesis by metis
  qed
  show ?thesis using rm add dup by blast
qed

theorem image_removal_and_order_witness:
  "images (formData (handleRemoveImage 0 galleryDraft))
     = [\<lparr>url = js ''http://x/b.png'', alt = [], caption = [], order = 1\<rparr>] \<and>
   map order (images (formData galleryDraft)) = [0, 1] \<and>
   map order (images (formData (handleAddImage (handleRemoveImage 0 galleryDraft)))) = [1, 1] \<and>
   \<not> distinct (map order (images (formData (handleAddImage (handleRemoveImage 0 galleryDraft)))))"
  using image_removal_and_order [of 0 galleryDraft]
  by (simp add: galleryDraft_eval)

section \<open>The request interceptor\<close>

lemma browserEnv_token: "storedToken browserEnv = Some (js ''abc'')" "js ''abc'' \<noteq> []"
  by (simp_all add: storedToken_def browserEnv_def js_def)

lemma tableGet_tableSet: "tableGet (tableSet h name v) name = Some v"
  by (induction h) (auto simp: sameName_def)

lemma tableGet_tableSet_other:
  "\<not> sameName other name \<Longrightarrow> tableGet (tableSet h name v) other = tableGet h other"
  by (induction h) (auto simp: sameName_def)

lemma jsonRequest_headers: "headers jsonRequest = Some (AxiosHeaders sentHeaders)"
  by (simp add: jsonRequest_def)

lemma sentHeaders_eval:
  "\<not> sameName (js ''Content-Type'') (js ''Authorization'')"
  "tableGet sentHeaders (js ''Content-Type'') = Some (js ''application/json'')"
  "tableGet sentHeaders (js ''Authorization'') = Some (js ''Bearer old'')"
  "js ''Bearer '' @ js ''abc'' = js ''Bearer abc''"
  by code_simp+

text \<open>
  C8. If the storage holds a token that is not empty, the interceptor returns the request
  with its headers changed and nothing else: on a header object of the library it has
  called \<open>set\<close> once, with \<open>Authorization\<close> and \<open>Bearer \<close> followed by the token; on a plain
  object it has assigned that value to the key \<open>Authorization\<close>, a plain object being
  created when the request has no headers. On a plain object the header then reads so and
  every other key reads as before. On a header object the same holds as far as the
  library's \<open>set\<close> does its part, of which two things are assumed, both for the name
  \<open>Authorization\<close> only: where the object accepts the value it is stored and read back
  (\<open>accepts\<close>; a library may keep a header that a request has switched off), and the names
  the library takes for other headers read as before (\<open>isOther\<close>; a library that ignores
  case takes \<open>authorization\<close> for the same header). If there is no token (none stored, no
  \<open>window\<close>, or the empty string) the request is returned as it is.
\<close>

theorem requestInterceptor_authorization:
  assumes "\<And>h v. accepts h v \<Longrightarrow>
             headerGet (headerSet h (js ''Authorization'') v) (js ''Authorization'') = Some v"
    and "\<And>h v other. isOther other \<Longrightarrow>
           headerGet (headerSet h (js ''Authorization'') v) other = headerGet h other"
  shows "(storedToken env = Some token \<and> token \<noteq> [] \<longrightarrow>
            headers (requestInterceptor headerSet env config)
              = (case headers config of
                   Some (AxiosHeaders h) \<Rightarrow>
                     Some (AxiosHeaders
                       (headerSet h (js ''Authorization'') (js ''Bearer '' @ token)))
                 | Some (PlainObject m) \<Rightarrow>
                     Some (PlainObject (m(js ''Authorization'' \<mapsto> js ''Bearer '' @ token)))
                 | None \<Rightarrow>
                     Some (PlainObject [js ''Authorization'' \<mapsto> js ''Bearer '' @ token])) \<and>
            requestInterceptor headerSet env config
              = config\<lparr>headers := headers (requestInterceptor headerSet env config)\<rparr> \<and>
            (case headers config of
               Some (AxiosHeaders h) \<Rightarrow>
                 (accepts h (js ''Bearer '' @ token) \<longrightarrow>
                    headerOf headerGet (headers (requestInterceptor headerSet env config))
                      (js ''Authorization'') = Some (js ''Bearer '' @ token)) \<and>
                 (\<forall>other. isOther other \<longrightarrow>
                    headerOf headerGet (headers (requestInterceptor headerSet env config)) other
                      = headerOf headerGet (headers config) other)
             | _ \<Rightarrow>
                 headerOf headerGet (headers (requestInterceptor headerSet env config))
                   (js ''Authorization'') = Some (js ''Bearer '' @ token) \<and>
                 (\<forall>other. other \<noteq> js ''Authorization'' \<longrightarrow>
                    headerOf headerGet (headers (requestInterceptor headerSet env config)) other
                      = headerOf headerGet (headers config) other))) \<and>
         (storedToken env = None \<or> storedToken env = Some [] \<longrightarrow>
            requestInterceptor headerSet env config = config)"
  using assms
  by (auto simp: requestInterceptor_def headerOf_def Let_def split: option.splits headers.splits)

theorem requestInterceptor_authorization_witness:
  "headerOf tableGet (headers (requestInterceptor tableSet browserEnv jsonRequest))
      (js ''Authorization'') = Some (js ''Bearer abc'') \<and>
   headerOf tableGet (headers (requestInterceptor tableSet browserEnv jsonRequest))
      (js ''Content-Type'') = Some (js ''application/json'') \<and>
   headerOf tableGet (headers jsonRequest) (js ''Authorization'') = Some (js ''Bearer old'') \<and>
   requestInterceptor tableSet (browserEnv\<lparr>localStorage := Map.empty\<rparr>) jsonRequest = jsonRequest"
proof -
  have stored: "\<And>h v. anyValue h v \<Longrightarrow>
      tableGet (tableSet h (js ''Authorization'') v) (js ''Authorization'') = Some v"
    by (simp add: tableGet_tableSet)
  have frame: "\<And>h v other. otherName other \<Longrightarrow>
      tableGet (tableSet h (js ''Authorization'') v) other = tableGet h other"
    by (simp add: tableGet_tableSet_other otherName_def)
  have none: "storedToken (browserEnv\<lparr>localStorage := Map.empty\<rparr>) = None"
    by (simp add: storedToken_def)
  have any: "anyValue sentHeaders (js ''Bearer '' @ js ''abc'')"
    by (simp add: anyValue_def)
  have other: "otherName (js ''Content-Type'')"
    by (simp add: otherName_def sentHeaders_eval(1))
  note auth = requestInterceptor_authorization [of anyValue tableGet tableSet otherName browserEnv
      "js ''abc''" jsonRequest, OF stored frame,
      unfolded jsonRequest_headers option.case headers.case]
  note anon = requestInterceptor_authorization [of anyValue tableGet tableSet otherName
      "browserEnv\<lparr>localStorage := Map.empty\<rparr>" "[]" jsonRequest, OF stored frame]
  from auth browserEnv_token any
  have a: "headerOf tableGet (headers (requestInterceptor tableSet browserEnv jsonRequest))
      (js ''Authorization'') = Some (js ''Bearer '' @ js ''abc'')"
    by blast
  from auth browserEnv_token other
  have b: "headerOf tableGet (headers (requestInterceptor tableSet browserEnv jsonRequest))
      (js ''Content-Type'') = headerOf tableGet (Some (AxiosHeaders sentHeaders)) (js ''Content-Type'')"
    by blast
  from anon none
  have c: "requestInterceptor tableSet (browserEnv\<lparr>localStorage := Map.empty\<rparr>) jsonRequest
      = jsonRequest"
    by blast
  have old: "headerOf tableGet (Some (AxiosHeaders sentHeaders)) (js ''Content-Type'')
        = Some (js ''application/json'')"
      "headerOf tableGet (headers jsonRequest) (js ''Authorization'') = Some (js ''Bearer old'')"
    by (simp_all add: headerOf_def jsonRequest_headers sentHeaders_eval)
  from a b c old sentHeaders_eval(4) show ?thesis by simp
qed

section \<open>Deletion and its confirmation\<close>

lemma loadBlogs_result:
  "loadBlogs loaded st = (st', calls) \<Longrightarrow>
     showDeleteConfirm st' = showDeleteConfirm st \<and> DeleteBlog i \<notin> set calls"
  by (auto simp: loadBlogs_def Let_def split: response.splits prod.splits)

lemma loadBlogs_confirm:
  "showDeleteConfirm (fst (loadBlogs loaded st)) = showDeleteConfirm st"
  using loadBlogs_result [of loaded st] by (cases "loadBlogs loaded st") simp

lemma loadBlogs_calls:
  "DeleteBlog i \<notin> set (snd (loadBlogs loaded st))"
  using loadBlogs_result [of loaded st] by (cases "loadBlogs loaded st") simp

lemma handleCreateBlog_confirm:
  "showDeleteConfirm (fst (handleCreateBlog d f saved loaded st)) = showDeleteConfirm st"
  by (auto simp: handleCreateBlog_def Let_def split: response.splits prod.splits
      dest: loadBlogs_result)

lemma handleCreateBlog_calls:
  "DeleteBlog i \<notin> set (fst (snd (handleCreateBlog d f saved loaded st)))"
  by (auto simp: handleCreateBlog_def Let_def split: response.splits prod.splits
      dest: loadBlogs_result)

lemma handleUpdateBlog_confirm:
  "showDeleteConfirm (fst (handleUpdateBlog d f saved loaded st)) = showDeleteConfirm st"
  by (auto simp: handleUpdateBlog_def Let_def split: response.splits prod.splits
      dest: loadBlogs_result)

lemma handleUpdateBlog_calls:
  "DeleteBlog i \<notin> set (fst (snd (handleUpdateBlog d f saved loaded st)))"
  by (auto simp: handleUpdateBlog_def Let_def split: response.splits prod.splits
      dest: loadBlogs_result)

lemma handleDeleteBlog_calls:
  "DeleteBlog i \<in> set (snd (handleDeleteBlog j deleted loaded st)) \<Longrightarrow> i = j"
  by (auto simp: handleDeleteBlog_def split: response.splits prod.splits
      dest: loadBlogs_result)

lemma handleDeleteBlog_confirm:
  "showDeleteConfirm (fst (handleDeleteBlog j deleted loaded st)) = Some i \<Longrightarrow>
     showDeleteConfirm st = Some i"
  by (auto simp: handleDeleteBlog_def split: response.splits prod.splits
      dest: loadBlogs_result)

lemma step_Save:
  "showDeleteConfirm (fst (step (Save d f saved loaded) st)) = showDeleteConfirm st \<and>
   DeleteBlog i \<notin> set (snd (step (Save d f saved loaded) st))"
proof (cases "formMode st = CreateMode")
  case True
  obtain st' calls r where h: "handleCreateBlog d f saved loaded st = (st', calls, r)"
    by (cases "handleCreateBlog d f saved loaded st")
  with handleCreateBlog_confirm [of d f saved loaded st]
    handleCreateBlog_calls [of i d f saved loaded st] True
  show ?thesis by simp
next
  case False
  obtain st' calls r where h: "handleUpdateBlog d f saved loaded st = (st', calls, r)"
    by (cases "handleUpdateBlog d f saved loaded st")
  with handleUpdateBlog_confirm [of d f saved loaded st]
    handleUpdateBlog_calls [of i d f saved loaded st] False
  show ?thesis by simp
qed

lemma step_delete_call:
  assumes "DeleteBlog i \<in> set (snd (step e st))"
  shows "showDeleteConfirm st = Some i \<and> (\<exists>deleted loaded. e = ConfirmDeleteClicked deleted loaded)"
proof (cases e)
  case NewClicked
  with assms show ?thesis by simp
next
  case (EditClicked b)
  with assms show ?thesis by simp
next
  case (ViewClicked b)
  with assms show ?thesis by simp
next
  case CancelClicked
  with assms show ?thesis by simp
next
  case DetailDeleteClicked
  with assms show ?thesis by simp
next
  case (Save d f saved loaded)
  with assms step_Save [of d f saved loaded st i] show ?thesis by blast
next
  case (Fetch p t loaded)
  with assms loadBlogs_calls show ?thesis by simp
next
  case (RowDeleteClicked j)
  with assms show ?thesis by simp
next
  case (ConfirmDeleteClicked deleted loaded)
  show ?thesis
  proof (cases "showDeleteConfirm st")
    case None
    with assms ConfirmDeleteClicked show ?thesis by (simp add: confirmDeleteClicked_def)
  next
    case (Some j)
    with assms ConfirmDeleteClicked
    have "DeleteBlog i \<in> set (snd (handleDeleteBlog j deleted loaded st))"
      by (simp add: confirmDeleteClicked_def)
    then have "i = j" by (rule handleDeleteBlog_calls)
    with Some ConfirmDeleteClicked show ?thesis by simp
  qed
next
  case CancelDeleteClicked
  with assms show ?thesis by simp
qed

lemma step_holds:
  assumes "showDeleteConfirm (fst (step e st)) = Some i"
  shows "showDeleteConfirm st = Some i \<or> isDeleteRequest e"
proof (cases e)
  case NewClicked
  with assms show ?thesis by (simp add: handleNewBlog_def)
next
  case (EditClicked b)
  with assms show ?thesis by (simp add: handleEditBlog_def)
next
  case (ViewClicked b)
  with assms show ?thesis by (simp add: handleViewBlog_def)
next
  case CancelClicked
  with assms show ?thesis by (simp add: handleCancel_def)
next
  case DetailDeleteClicked
  then show ?thesis by simp
next
  case (Save d f saved loaded)
  with assms step_Save [of d f saved loaded st i] show ?thesis by simp
next
  case (Fetch p t loaded)
  with assms loadBlogs_confirm [of loaded "st\<lparr>currentPage := p, searchTerm := t\<rparr>"]
  show ?thesis by simp
next
  case (RowDeleteClicked j)
  then show ?thesis by simp
next
  case (ConfirmDeleteClicked deleted loaded)
  show ?thesis
  proof (cases "showDeleteConfirm st")
    case None
    with assms ConfirmDeleteClicked show ?thesis by (simp add: confirmDeleteClicked_def)
  next
    case (Some j)
    with assms ConfirmDeleteClicked
    have "showDeleteConfirm (fst (handleDeleteBlog j deleted loaded st)) = Some i"
      by (simp add: confirmDeleteClicked_def)
    then show ?thesis using handleDeleteBlog_confirm by blast
  qed
next
  case CancelDeleteClicked
  with assms show ?thesis by (simp add: cancelDeleteClicked_def)
qed

lemma after_snoc: "after (evs @ [e]) = fst (step e (after evs))"
  by (simp add: after_def)

lemma held_was_requested:
  "showDeleteConfirm (after evs) = Some i \<Longrightarrow>
     \<exists>pre r post. evs = pre @ r # post \<and> isDeleteRequest r \<and>
       showDeleteConfirm (after (pre @ [r])) = Some i"
proof (induction evs rule: rev_induct)
  case Nil
  then show ?case by (simp add: after_def initialPageState_def)
next
  case (snoc e evs)
  show ?case
  proof (cases "isDeleteRequest e")
    case True
    with snoc.prems show ?thesis by blast
  next
    case False
    with snoc.prems step_holds [of e "after evs" i]
    have "showDeleteConfirm (after evs) = Some i" by (simp add: after_snoc)
    then obtain pre r post where "evs = pre @ r # post" "isDeleteRequest r"
      "showDeleteConfirm (after (pre @ [r])) = Some i"
      using snoc.IH by blast
    then have "evs @ [e] = pre @ r # (post @ [e])" by simp
    with \<open>isDeleteRequest r\<close> \<open>showDeleteConfirm (after (pre @ [r])) = Some i\<close>
    show ?thesis by blast
  qed
qed

lemma detail_delete_run:
  "snd (step (ConfirmDeleteClicked (Ok ()) (Ok ([], 1)))
      (after [ViewClicked sampleBlog, DetailDeleteClicked]))
     = [DeleteBlog (js ''b1''),
        GetBlogs \<lparr>page = 1, limit = 10, search = None, sortBy = js ''publishedAt'',
          sortOrder = js ''desc'', includeUnpublished = True\<rparr>]"
  "snd (step (ConfirmDeleteClicked (Ok ()) (Ok ([], 1))) (after [ViewClicked sampleBlog])) = []"
  by code_simp+

text \<open>
  C7. In every execution of the controller from its mounted state, a call of the service's
  delete for an identifier is made only by the confirm button of the dialog, only while
  that identifier is held in \<open>showDeleteConfirm\<close>, and only after an earlier event, a click
  on a delete button of the detail view or of a row, has put the identifier there.
\<close>

theorem delete_only_after_confirmation_request:
  assumes "DeleteBlog i \<in> set (snd (step e (after evs)))"
  shows "showDeleteConfirm (after evs) = Some i \<and>
         (\<exists>deleted loaded. e = ConfirmDeleteClicked deleted loaded) \<and>
         (\<exists>pre r post. evs = pre @ r # post \<and> isDeleteRequest r \<and>
            showDeleteConfirm (after (pre @ [r])) = Some i)"
  using step_delete_call [OF assms] held_was_requested [of evs i] by blast

theorem delete_only_after_confirmation_request_witness:
  "DeleteBlog (js ''b1'')
     \<in> set (snd (step (ConfirmDeleteClicked (Ok ()) (Ok ([], 1)))
         (after [ViewClicked sampleBlog, DetailDeleteClicked]))) \<and>
   showDeleteConfirm (after [ViewClicked sampleBlog, DetailDeleteClicked]) = Some (js ''b1'') \<and>
   snd (step (ConfirmDeleteClicked (Ok ()) (Ok ([], 1))) (after [ViewClicked sampleBlog])) = []"
proof -
  have called: "DeleteBlog (js ''b1'')
     \<in> set (snd (step (ConfirmDeleteClicked (Ok ()) (Ok ([], 1)))
         (after [ViewClicked sampleBlog, DetailDeleteClicked])))"
    by (simp only: detail_delete_run(1)) simp
  from delete_only_after_confirmation_request [OF called] called detail_delete_run(2)
  show ?thesis by blast
qed

end
